theory Spec2Isabelle
  imports Main "HOL-Library.Word"
begin

section \<open>The corosync cluster driver of sheepdog (sheep/cluster/corosync.c)\<close>

text \<open>
  The driver keeps its state in file-level statics: the two event lists, the roster array
  \<open>cpg_nodes\<close> with its length \<open>nr_cpg_nodes\<close>, and a few flags.  The model below is a
  record of these statics that every function takes and returns.  The two logs \<open>upcalls\<close>
  and \<open>sent\<close> are the observable effects of the driver: the calls into the host daemon
  (\<open>sd_*_handler\<close>) and the messages handed to \<open>cpg_mcast_joined\<close>.
\<close>

subsection \<open>Data\<close>

type_synonym byte = "8 word"

text \<open>
  Modelled from the spec: \<open>struct sd_node\<close> is declared in a header that is not among the
  sources; the spec calls it an opaque host-supplied descriptor (address, port, zone).  The
  driver only copies it, so a number stands for it and \<open>0\<close> for the all-zero descriptor.
\<close>

type_synonym sd_node = nat

record cpg_node =
  nodeid :: "32 word"
  pid :: "32 word"
  gone :: "32 word"
  ent :: sd_node

text \<open>\<open>struct cpg_address\<close> of the corosync library, as far as the driver reads it.\<close>

record cpg_address =
  ca_nodeid :: "32 word"
  ca_pid :: "32 word"

datatype corosync_event_type =
  COROSYNC_EVENT_TYPE_JOIN_REQUEST
| COROSYNC_EVENT_TYPE_JOIN_RESPONSE
| COROSYNC_EVENT_TYPE_LEAVE
| COROSYNC_EVENT_TYPE_BLOCK
| COROSYNC_EVENT_TYPE_NOTIFY

datatype corosync_message_type =
  COROSYNC_MSG_TYPE_JOIN_REQUEST
| COROSYNC_MSG_TYPE_JOIN_RESPONSE
| COROSYNC_MSG_TYPE_LEAVE
| COROSYNC_MSG_TYPE_NOTIFY
| COROSYNC_MSG_TYPE_BLOCK
| COROSYNC_MSG_TYPE_UNBLOCK

text \<open>
  The integer values of the two C enums.  They matter because \<open>__corosync_dispatch\<close>
  compares an event type with constants of the message enum.
\<close>

fun event_type_val :: "corosync_event_type \<Rightarrow> nat" where
  "event_type_val COROSYNC_EVENT_TYPE_JOIN_REQUEST = 0"
| "event_type_val COROSYNC_EVENT_TYPE_JOIN_RESPONSE = 1"
| "event_type_val COROSYNC_EVENT_TYPE_LEAVE = 2"
| "event_type_val COROSYNC_EVENT_TYPE_BLOCK = 3"
| "event_type_val COROSYNC_EVENT_TYPE_NOTIFY = 4"

fun message_type_val :: "corosync_message_type \<Rightarrow> nat" where
  "message_type_val COROSYNC_MSG_TYPE_JOIN_REQUEST = 0"
| "message_type_val COROSYNC_MSG_TYPE_JOIN_RESPONSE = 1"
| "message_type_val COROSYNC_MSG_TYPE_LEAVE = 2"
| "message_type_val COROSYNC_MSG_TYPE_NOTIFY = 3"
| "message_type_val COROSYNC_MSG_TYPE_BLOCK = 4"
| "message_type_val COROSYNC_MSG_TYPE_UNBLOCK = 5"

text \<open>
  Modelled from the spec: \<open>enum cluster_join_result\<close> is declared in cluster.h, which is
  not among the sources; the spec lists its four values, \<open>SUCCESS\<close> being 0.
\<close>

datatype cluster_join_result =
  CJ_RES_SUCCESS
| CJ_RES_FAIL
| CJ_RES_JOIN_LATER
| CJ_RES_MASTER_TRANSFER

text \<open>
  \<open>struct corosync_event\<close>.  \<open>ev_msg\<close> is the pointer \<open>msg\<close>: \<open>None\<close> is \<open>NULL\<close>,
  \<open>Some bs\<close> a heap buffer holding \<open>bs\<close>.  \<open>ev_nodes\<close> is the array \<open>nodes[SD_MAX_NODES]\<close>.
\<close>

record corosync_event =
  ev_type :: corosync_event_type
  ev_sender :: cpg_node
  ev_msg :: "byte list option"
  ev_msg_len :: nat
  ev_result :: cluster_join_result
  ev_nr_nodes :: nat
  ev_nodes :: "cpg_node list"
  ev_callbacked :: bool

text \<open>
  \<open>struct corosync_message\<close>, a received or sent frame.  \<open>cm_msg\<close> is the trailing payload
  \<open>msg[0]\<close>; its field \<open>msg_len\<close> is the number of these bytes, as \<open>send_message\<close> builds
  every frame (\<open>iov[1].iov_len = msg_len\<close>).  The type is one of the six values of the
  enum; the other values of the four-bit field, which no node sends, are left out.
\<close>

record corosync_message =
  cm_sender :: cpg_node
  cm_type :: corosync_message_type
  cm_result :: cluster_join_result
  cm_nr_nodes :: nat
  cm_nodes :: "cpg_node list"
  cm_msg :: "byte list"

definition cm_msg_len :: "corosync_message \<Rightarrow> nat" where
  "cm_msg_len m = length (cm_msg m)"

text \<open>The calls into the host daemon, with their arguments.\<close>

datatype upcall =
  Sd_check_join_cb sd_node "byte list option"
| Sd_join_handler sd_node "sd_node list" nat cluster_join_result "byte list option"
| Sd_leave_handler sd_node "sd_node list" nat
| Sd_block_handler sd_node
| Sd_notify_handler sd_node "byte list option" nat

text \<open>
  The host daemon answers two of the upcalls.  Its answer may depend on anything the host
  has seen, so it is a function of the upcalls made before (and the arguments); every
  sequence of answers is the behaviour of some such function.
\<close>

record host =
  sd_check_join_cb :: "upcall list \<Rightarrow> sd_node \<Rightarrow> byte list option \<Rightarrow> cluster_join_result"
  sd_block_handler :: "upcall list \<Rightarrow> sd_node \<Rightarrow> bool"

text \<open>
  The statics of corosync.c.  \<open>cpg_nodes\<close> is the array \<open>cpg_nodes[SD_MAX_NODES]\<close>: a list
  whose length is the constant \<open>SD_MAX_NODES\<close> (declared outside the sources, so it is the
  length of this list rather than a number).  Slots from \<open>nr_cpg_nodes\<close> on hold what
  earlier operations left there.
\<close>

record driver =
  this_node :: cpg_node
  corosync_block_event_list :: "corosync_event list"
  corosync_nonblock_event_list :: "corosync_event list"
  cpg_nodes :: "cpg_node list"
  nr_cpg_nodes :: nat
  self_elect :: bool
  join_finished :: bool
  nr_majority :: nat
  upcalls :: "upcall list"
  sent :: "corosync_message list"

definition SD_MAX_NODES :: "driver \<Rightarrow> nat" where
  "SD_MAX_NODES s = length (cpg_nodes s)"

text \<open>
  How the process can stop inside the driver: \<open>exit(1)\<close> after a master transfer, the two
  \<open>panic\<close>s of the partition check, and an access outside an array of \<open>SD_MAX_NODES\<close>
  slots, where C leaves the behaviour undefined.
\<close>

datatype halt =
  Exit_master_transfer
| Panic_NIC_failure
| Panic_network_partition
| Out_of_bounds

type_synonym 'a outcome = "(halt \<times> driver) + 'a"

definition zero_cpg_node :: cpg_node where
  "zero_cpg_node = \<lparr>nodeid = 0, pid = 0, gone = 0, ent = 0\<rparr>"

text \<open>\<open>xzalloc(sizeof(*cevent))\<close>: an event of zero bytes.\<close>

definition xzalloc_event :: "nat \<Rightarrow> corosync_event" where
  "xzalloc_event max_nodes =
     \<lparr>ev_type = COROSYNC_EVENT_TYPE_JOIN_REQUEST, ev_sender = zero_cpg_node,
      ev_msg = None, ev_msg_len = 0, ev_result = CJ_RES_SUCCESS, ev_nr_nodes = 0,
      ev_nodes = replicate max_nodes zero_cpg_node, ev_callbacked = False\<rparr>"

subsection \<open>The roster\<close>

definition cpg_node_equal :: "cpg_node \<Rightarrow> cpg_node \<Rightarrow> bool" where
  "cpg_node_equal a b \<longleftrightarrow> nodeid a = nodeid b \<and> pid a = pid b"

text \<open>The loop of \<open>find_cpg_node\<close>, started at index \<open>i\<close> on the slots not yet visited.\<close>

fun find_cpg_node_loop :: "cpg_node list \<Rightarrow> cpg_node \<Rightarrow> nat \<Rightarrow> int" where
  "find_cpg_node_loop [] key i = - 1"
| "find_cpg_node_loop (n # ns) key i =
     (if cpg_node_equal n key then int i else find_cpg_node_loop ns key (Suc i))"

definition find_cpg_node :: "cpg_node list \<Rightarrow> nat \<Rightarrow> cpg_node \<Rightarrow> int" where
  "find_cpg_node nodes nr_nodes key = find_cpg_node_loop (take nr_nodes nodes) key 0"

text \<open>
  \<open>nodes[nr_nodes++] = *added\<close>; the increment is of the callee's copy of \<open>nr_nodes\<close>.
  \<open>None\<close> when the slot is outside the array.
\<close>

definition add_cpg_node :: "cpg_node list \<Rightarrow> nat \<Rightarrow> cpg_node \<Rightarrow> cpg_node list option" where
  "add_cpg_node nodes nr_nodes added =
     (if nr_nodes < length nodes then Some (nodes[nr_nodes := added]) else None)"

text \<open>\<open>memmove(nodes + dst, nodes + src, sizeof(*nodes) * cnt)\<close> within one array.\<close>

definition memmove_nodes :: "cpg_node list \<Rightarrow> nat \<Rightarrow> nat \<Rightarrow> nat \<Rightarrow> cpg_node list" where
  "memmove_nodes nodes dst src cnt =
     take dst nodes @ take cnt (drop src nodes) @ drop (dst + cnt) nodes"

definition del_cpg_node :: "cpg_node list \<Rightarrow> nat \<Rightarrow> cpg_node \<Rightarrow> cpg_node list" where
  "del_cpg_node nodes nr_nodes deled =
     (let idx = find_cpg_node nodes nr_nodes deled in
      if idx < 0 then nodes
      else memmove_nodes nodes (nat idx) (nat idx + 1) ((nr_nodes - 1) - nat idx))"

text \<open>The scan \<open>for (i = 0; i < SD_MAX_NODES; i++) if (!cpg_nodes[i].gone) goto eq_check\<close>.\<close>

fun first_not_gone :: "cpg_node list \<Rightarrow> nat \<Rightarrow> nat option" where
  "first_not_gone [] i = None"
| "first_not_gone (n # ns) i = (if gone n = 0 then Some i else first_not_gone ns (Suc i))"

text \<open>\<open>is_master(node)\<close>; \<open>None\<close> is the \<open>NULL\<close> argument, which stands for \<open>this_node\<close>.\<close>

definition is_master :: "driver \<Rightarrow> cpg_node option \<Rightarrow> int" where
  "is_master s node =
     (let n = (case node of None \<Rightarrow> this_node s | Some x \<Rightarrow> x) in
      if nr_cpg_nodes s = 0 then 0
      else (case first_not_gone (cpg_nodes s) 0 of
              None \<Rightarrow> - 1
            | Some i \<Rightarrow> if cpg_node_equal (cpg_nodes s ! i) n then int i else - 1))"

definition build_node_list :: "cpg_node list \<Rightarrow> nat \<Rightarrow> sd_node list" where
  "build_node_list nodes nr_nodes = map ent (take nr_nodes nodes)"

subsection \<open>Sending\<close>

text \<open>
  \<open>send_message\<close> fills a frame and hands it to \<open>cpg_mcast_joined\<close>, again after a second
  for as long as the service answers \<open>CS_ERR_TRY_AGAIN\<close>.  It touches none of the statics
  and the dispatcher ignores its return value, so the model records the frame in \<open>sent\<close>
  and goes on: it describes the executions in which the service answers something else
  in the end, and does not tell whether the frame was sent.
\<close>

definition send_message ::
  "corosync_message_type \<Rightarrow> cluster_join_result \<Rightarrow> cpg_node \<Rightarrow> cpg_node list option \<Rightarrow> nat \<Rightarrow>
   byte list option \<Rightarrow> nat \<Rightarrow> driver \<Rightarrow> driver" where
  "send_message type result sender nodes nr_nodes msg msg_len s =
     s\<lparr>sent := sent s @
        [\<lparr>cm_sender = sender, cm_type = type, cm_result = result, cm_nr_nodes = nr_nodes,
          cm_nodes = (case nodes of
                        None \<Rightarrow> replicate (SD_MAX_NODES s) zero_cpg_node
                      | Some ns \<Rightarrow> take nr_nodes ns @
                                   replicate (SD_MAX_NODES s - nr_nodes) zero_cpg_node),
          cm_msg = (case msg of None \<Rightarrow> [] | Some bs \<Rightarrow> take msg_len bs)\<rparr>]\<rparr>"

subsection \<open>Looking events up\<close>

text \<open>
  \<open>list_for_each_entry\<close> with the test of \<open>find_block_event\<close> and \<open>find_nonblock_event\<close>:
  the position of the first event of that type and sender.  A position stands for the
  pointer the C code returns.
\<close>

fun find_event_loop ::
  "corosync_event list \<Rightarrow> corosync_event_type \<Rightarrow> cpg_node \<Rightarrow> nat \<Rightarrow> nat option" where
  "find_event_loop [] type sender i = None"
| "find_event_loop (cevent # rest) type sender i =
     (if ev_type cevent = type \<and> cpg_node_equal (ev_sender cevent) sender then Some i
      else find_event_loop rest type sender (Suc i))"

definition find_block_event :: "driver \<Rightarrow> corosync_event_type \<Rightarrow> cpg_node \<Rightarrow> nat option" where
  "find_block_event s type sender = find_event_loop (corosync_block_event_list s) type sender 0"

definition find_nonblock_event :: "driver \<Rightarrow> corosync_event_type \<Rightarrow> cpg_node \<Rightarrow> nat option" where
  "find_nonblock_event s type sender =
     find_event_loop (corosync_nonblock_event_list s) type sender 0"

definition find_event :: "driver \<Rightarrow> corosync_event_type \<Rightarrow> cpg_node \<Rightarrow> nat option" where
  "find_event s type sender =
     (if type = COROSYNC_EVENT_TYPE_BLOCK then find_block_event s type sender
      else find_nonblock_event s type sender)"

text \<open>
  The list an event of a given type lives in (the choice \<open>find_event\<close> and \<open>queue_event\<close>
  make), reading it and writing it back.
\<close>

definition event_list :: "driver \<Rightarrow> corosync_event_type \<Rightarrow> corosync_event list" where
  "event_list s type =
     (if type = COROSYNC_EVENT_TYPE_BLOCK then corosync_block_event_list s
      else corosync_nonblock_event_list s)"

definition set_event_list :: "corosync_event_type \<Rightarrow> corosync_event list \<Rightarrow> driver \<Rightarrow> driver" where
  "set_event_list type evs s =
     (if type = COROSYNC_EVENT_TYPE_BLOCK then s\<lparr>corosync_block_event_list := evs\<rparr>
      else s\<lparr>corosync_nonblock_event_list := evs\<rparr>)"

text \<open>\<open>list_del(&cevent->list); free(cevent->msg); free(cevent)\<close> for the event at a position.\<close>

definition list_del :: "nat \<Rightarrow> 'a list \<Rightarrow> 'a list" where
  "list_del i xs = take i xs @ drop (Suc i) xs"

definition queue_event :: "corosync_event \<Rightarrow> driver \<Rightarrow> driver" where
  "queue_event cevent s =
     (if ev_type cevent = COROSYNC_EVENT_TYPE_BLOCK
      then s\<lparr>corosync_block_event_list := corosync_block_event_list s @ [cevent]\<rparr>
      else s\<lparr>corosync_nonblock_event_list := corosync_nonblock_event_list s @ [cevent]\<rparr>)"

subsection \<open>The dispatcher\<close>

definition call_join_handler :: "corosync_event \<Rightarrow> driver \<Rightarrow> driver" where
  "call_join_handler cevent s =
     s\<lparr>upcalls := upcalls s @
        [Sd_join_handler (ent (ev_sender cevent))
           (build_node_list (cpg_nodes s) (nr_cpg_nodes s)) (nr_cpg_nodes s)
           (ev_result cevent) (ev_msg cevent)]\<rparr>"

definition call_leave_handler :: "corosync_event \<Rightarrow> driver \<Rightarrow> driver" where
  "call_leave_handler cevent s =
     s\<lparr>upcalls := upcalls s @
        [Sd_leave_handler (ent (ev_sender cevent))
           (build_node_list (cpg_nodes s) (nr_cpg_nodes s)) (nr_cpg_nodes s)]\<rparr>"

text \<open>
  \<open>__corosync_dispatch_one(cevent)\<close>.  The C function works on the event through a
  pointer; the model returns the event as the function leaves it, next to the value
  returned (true if the event is processed) and the statics.
\<close>

definition corosync_dispatch_one ::
  "host \<Rightarrow> corosync_event \<Rightarrow> driver \<Rightarrow> (bool \<times> corosync_event \<times> driver) outcome" where
  "corosync_dispatch_one h cevent s =
     (case ev_type cevent of
        COROSYNC_EVENT_TYPE_JOIN_REQUEST \<Rightarrow>
          if is_master s (Some (this_node s)) < 0 then Inr (False, cevent, s)
          else if ev_msg cevent = None then Inr (False, cevent, s)
          else if ev_callbacked cevent then Inr (False, cevent, s)
          else
            (let res = sd_check_join_cb h (upcalls s) (ent (ev_sender cevent)) (ev_msg cevent);
                 s1 = s\<lparr>upcalls := upcalls s @
                         [Sd_check_join_cb (ent (ev_sender cevent)) (ev_msg cevent)]\<rparr>;
                 s2 = (if res = CJ_RES_MASTER_TRANSFER then s1\<lparr>nr_cpg_nodes := 0\<rparr> else s1);
                 s3 = send_message COROSYNC_MSG_TYPE_JOIN_RESPONSE res (ev_sender cevent)
                        (Some (cpg_nodes s2)) (nr_cpg_nodes s2)
                        (ev_msg cevent) (ev_msg_len cevent) s2
             in if res = CJ_RES_MASTER_TRANSFER then Inl (Exit_master_transfer, s3)
                else Inr (False, cevent\<lparr>ev_callbacked := True\<rparr>, s3))
      | COROSYNC_EVENT_TYPE_JOIN_RESPONSE \<Rightarrow>
          (case ev_result cevent of
             CJ_RES_FAIL \<Rightarrow> Inr (True, cevent, call_join_handler cevent s)
           | _ \<Rightarrow>
              (case add_cpg_node (cpg_nodes s) (nr_cpg_nodes s) (ev_sender cevent) of
                 None \<Rightarrow> Inl (Out_of_bounds, s)
               | Some nodes \<Rightarrow>
                   Inr (True, cevent,
                        call_join_handler cevent
                          (s\<lparr>cpg_nodes := nodes, nr_cpg_nodes := nr_cpg_nodes s + 1\<rparr>))))
      | COROSYNC_EVENT_TYPE_LEAVE \<Rightarrow>
          (let idx = find_cpg_node (cpg_nodes s) (nr_cpg_nodes s) (ev_sender cevent) in
           if idx < 0 then Inr (True, cevent, s)
           else
             (let cevent1 = cevent\<lparr>ev_sender :=
                              (ev_sender cevent)\<lparr>ent := ent (cpg_nodes s ! nat idx)\<rparr>\<rparr>;
                  s1 = s\<lparr>cpg_nodes :=
                           del_cpg_node (cpg_nodes s) (nr_cpg_nodes s) (ev_sender cevent1),
                         nr_cpg_nodes := nr_cpg_nodes s - 1\<rparr>
              in Inr (True, cevent1, call_leave_handler cevent1 s1)))
      | COROSYNC_EVENT_TYPE_BLOCK \<Rightarrow>
          if ev_callbacked cevent then Inr (False, cevent, s)
          else
            Inr (False,
                 cevent\<lparr>ev_callbacked := sd_block_handler h (upcalls s) (ent (ev_sender cevent))\<rparr>,
                 s\<lparr>upcalls := upcalls s @ [Sd_block_handler (ent (ev_sender cevent))]\<rparr>)
      | COROSYNC_EVENT_TYPE_NOTIFY \<Rightarrow>
          Inr (True, cevent,
               s\<lparr>upcalls := upcalls s @
                  [Sd_notify_handler (ent (ev_sender cevent)) (ev_msg cevent)
                     (ev_msg_len cevent)]\<rparr>))"

text \<open>
  The event the drain loop takes: \<open>list_first_entry\<close> of the non-block list if that list
  is not empty, of the block list otherwise.
\<close>

definition first_entry :: "driver \<Rightarrow> corosync_event" where
  "first_entry s =
     (if corosync_nonblock_event_list s \<noteq> [] then hd (corosync_nonblock_event_list s)
      else hd (corosync_block_event_list s))"

text \<open>What \<open>cevent\<close> points to after the call wrote through the pointer.\<close>

definition store_first_entry :: "corosync_event \<Rightarrow> driver \<Rightarrow> driver" where
  "store_first_entry cevent s =
     (if corosync_nonblock_event_list s \<noteq> []
      then s\<lparr>corosync_nonblock_event_list := cevent # tl (corosync_nonblock_event_list s)\<rparr>
      else s\<lparr>corosync_block_event_list := cevent # tl (corosync_block_event_list s)\<rparr>)"

text \<open>\<open>list_del(&cevent->list); free(cevent->msg); free(cevent)\<close> at the end of the loop body.\<close>

definition del_first_entry :: "driver \<Rightarrow> driver" where
  "del_first_entry s =
     (if corosync_nonblock_event_list s \<noteq> []
      then s\<lparr>corosync_nonblock_event_list := tl (corosync_nonblock_event_list s)\<rparr>
      else s\<lparr>corosync_block_event_list := tl (corosync_block_event_list s)\<rparr>)"

text \<open>
  \<open>memcpy(dst, src, sizeof(*src) * n)\<close> between two arrays of nodes; \<open>None\<close> when \<open>n\<close>
  slots are more than one of the arrays has.
\<close>

definition memcpy_nodes :: "cpg_node list \<Rightarrow> cpg_node list \<Rightarrow> nat \<Rightarrow> cpg_node list option" where
  "memcpy_nodes dst src n =
     (if n \<le> length dst \<and> n \<le> length src then Some (take n src @ drop n dst) else None)"

text \<open>The block under the comment \<open>update join status\<close>.\<close>

definition update_join_status :: "corosync_event \<Rightarrow> driver \<Rightarrow> driver outcome" where
  "update_join_status cevent s =
     (if \<not> join_finished s then
        (case ev_type cevent of
           COROSYNC_EVENT_TYPE_JOIN_REQUEST \<Rightarrow>
             if self_elect s then Inr (s\<lparr>join_finished := True, nr_cpg_nodes := 0\<rparr>)
             else Inr s
         | COROSYNC_EVENT_TYPE_JOIN_RESPONSE \<Rightarrow>
             if cpg_node_equal (ev_sender cevent) (this_node s) then
               (case memcpy_nodes (cpg_nodes s) (ev_nodes cevent) (ev_nr_nodes cevent) of
                  None \<Rightarrow> Inl (Out_of_bounds, s)
                | Some nodes \<Rightarrow>
                    Inr (s\<lparr>join_finished := True, nr_cpg_nodes := ev_nr_nodes cevent,
                           cpg_nodes := nodes\<rparr>))
             else Inr s
         | _ \<Rightarrow> Inr s)
      else Inr s)"

text \<open>
  One pass through the body of the \<open>while\<close> loop of \<open>__corosync_dispatch\<close>: the process
  stops, the function returns, or the event is deleted and the loop goes on.

  The \<open>switch\<close> of the \<open>else\<close> branch is over \<open>cevent->type\<close>, an event type, with the
  case labels \<open>COROSYNC_MSG_TYPE_JOIN_REQUEST\<close> and \<open>COROSYNC_MSG_TYPE_BLOCK\<close> of the
  message enum: C compares the integer values.
\<close>

datatype step = Halted halt driver | Returned driver | Next_iteration driver

definition corosync_dispatch_body :: "host \<Rightarrow> driver \<Rightarrow> step" where
  "corosync_dispatch_body h s =
     (let cevent = first_entry s in
      case update_join_status cevent s of
        Inl (why, s1) \<Rightarrow> Halted why s1
      | Inr s1 \<Rightarrow>
          if join_finished s1 then
            (case corosync_dispatch_one h cevent s1 of
               Inl (why, s2) \<Rightarrow> Halted why s2
             | Inr (processed, cevent1, s2) \<Rightarrow>
                 if \<not> processed then Returned (store_first_entry cevent1 s2)
                 else Next_iteration (del_first_entry s2))
          else if event_type_val (ev_type cevent) = message_type_val COROSYNC_MSG_TYPE_JOIN_REQUEST
                  \<or> event_type_val (ev_type cevent) = message_type_val COROSYNC_MSG_TYPE_BLOCK
          then Returned s1
          else Next_iteration (del_first_entry s1))"

definition nr_events :: "driver \<Rightarrow> nat" where
  "nr_events s = length (corosync_block_event_list s) + length (corosync_nonblock_event_list s)"

function corosync_dispatch_loop :: "host \<Rightarrow> driver \<Rightarrow> driver outcome" where
  "corosync_dispatch_loop h s =
     (if corosync_block_event_list s \<noteq> [] \<or> corosync_nonblock_event_list s \<noteq> [] then
        (case corosync_dispatch_body h s of
           Halted why s1 \<Rightarrow> Inl (why, s1)
         | Returned s1 \<Rightarrow> Inr s1
         | Next_iteration s1 \<Rightarrow> corosync_dispatch_loop h s1)
      else Inr s)"
  by pat_completeness auto

termination corosync_dispatch_loop
proof -
  have one: "corosync_block_event_list s1 = corosync_block_event_list s \<and>
             corosync_nonblock_event_list s1 = corosync_nonblock_event_list s"
    if "corosync_dispatch_one h e s = Inr (b, e1, s1)" for h e s b e1 s1
    using that
    by (auto simp: corosync_dispatch_one_def Let_def send_message_def call_join_handler_def
          call_leave_handler_def
        split: corosync_event_type.splits if_splits cluster_join_result.splits option.splits)
  have status: "corosync_block_event_list s1 = corosync_block_event_list s \<and>
                corosync_nonblock_event_list s1 = corosync_nonblock_event_list s"
    if "update_join_status e s = Inr s1" for e s s1
    using that
    by (auto simp: update_join_status_def
        split: corosync_event_type.splits if_splits option.splits)
  have body: "nr_events s1 < nr_events s"
    if "corosync_dispatch_body h s = Next_iteration s1"
      and "corosync_block_event_list s \<noteq> [] \<or> corosync_nonblock_event_list s \<noteq> []"
    for h s s1
    using that
    by (auto simp: corosync_dispatch_body_def Let_def nr_events_def del_first_entry_def
        split: sum.splits prod.splits if_splits dest!: one status)
  show ?thesis
    by (relation "measure (\<lambda>(h, s). nr_events s)") (auto dest: body)
qed

declare corosync_dispatch_loop.simps [simp del]

text \<open>
  \<open>__corosync_dispatch()\<close>.  \<open>incoming\<close> is what \<open>poll(&pfd, 1, 0)\<close> on the descriptor of
  the service answers: true if it is not 0.
\<close>

definition corosync_dispatch :: "host \<Rightarrow> bool \<Rightarrow> driver \<Rightarrow> driver outcome" where
  "corosync_dispatch h incoming s =
     (if incoming then Inr s else corosync_dispatch_loop h (s\<lparr>nr_majority := 0\<rparr>))"

subsection \<open>Intake: message delivery\<close>

text \<open>
  \<open>update_event\<close>: the position of the event it found and changed, or \<open>None\<close> for \<open>NULL\<close>.
  (\<open>realloc\<close> returning \<open>NULL\<close> ends the process; running out of memory is not modelled.)
\<close>

definition update_event ::
  "corosync_event_type \<Rightarrow> cpg_node \<Rightarrow> byte list \<Rightarrow> nat \<Rightarrow> driver \<Rightarrow> (nat \<times> driver) option" where
  "update_event type sender msg msg_len s =
     (case find_event s type sender of
        None \<Rightarrow> None
      | Some i \<Rightarrow>
          (let evs = event_list s type;
               cevent = evs ! i;
               cevent1 = cevent\<lparr>ev_msg_len := msg_len,
                                ev_msg := (if msg_len \<noteq> 0 then Some (take msg_len msg) else None)\<rparr>
           in Some (i, set_event_list type (evs[i := cevent1]) s)))"

text \<open>
  The code under \<open>case COROSYNC_MSG_TYPE_BLOCK: case COROSYNC_MSG_TYPE_NOTIFY:\<close>, which the
  \<open>UNBLOCK\<close> case falls through to: a new event of type \<open>BLOCK\<close> if the message is a
  \<open>BLOCK\<close>, of type \<open>NOTIFY\<close> otherwise.
\<close>

definition deliver_new_event :: "corosync_message \<Rightarrow> driver \<Rightarrow> driver" where
  "deliver_new_event cmsg s =
     queue_event
       ((xzalloc_event (SD_MAX_NODES s))
          \<lparr>ev_type := (if cm_type cmsg = COROSYNC_MSG_TYPE_BLOCK then COROSYNC_EVENT_TYPE_BLOCK
                       else COROSYNC_EVENT_TYPE_NOTIFY),
           ev_sender := cm_sender cmsg,
           ev_msg_len := cm_msg_len cmsg,
           ev_msg := (if cm_msg_len cmsg \<noteq> 0 then Some (take (cm_msg_len cmsg) (cm_msg cmsg))
                      else None)\<rparr>) s"

text \<open>\<open>cpg_nodes[master].gone = 1\<close>; \<open>None\<close> when the slot is outside the array.\<close>

definition set_gone :: "nat \<Rightarrow> cpg_node list \<Rightarrow> cpg_node list option" where
  "set_gone i nodes = (if i < length nodes then Some (nodes[i := (nodes ! i)\<lparr>gone := 1\<rparr>]) else None)"

text \<open>
  \<open>master = is_master(node); if (master >= 0) cpg_nodes[master].gone = 1\<close>, as both intake
  callbacks have it.
\<close>

definition revoke_mastership :: "cpg_node \<Rightarrow> driver \<Rightarrow> driver outcome" where
  "revoke_mastership node s =
     (let master = is_master s (Some node) in
      if master \<ge> 0 then
        (case set_gone (nat master) (cpg_nodes s) of
           None \<Rightarrow> Inl (Out_of_bounds, s)
         | Some nodes \<Rightarrow> Inr (s\<lparr>cpg_nodes := nodes\<rparr>))
      else Inr s)"

text \<open>The \<open>switch (cmsg->type)\<close> of \<open>cdrv_cpg_deliver\<close>, before the dispatcher is called.\<close>

definition cdrv_cpg_deliver_intake :: "corosync_message \<Rightarrow> driver \<Rightarrow> driver outcome" where
  "cdrv_cpg_deliver_intake cmsg s =
     (case cm_type cmsg of
        COROSYNC_MSG_TYPE_JOIN_REQUEST \<Rightarrow>
          (case update_event COROSYNC_EVENT_TYPE_JOIN_REQUEST (cm_sender cmsg) (cm_msg cmsg)
                  (cm_msg_len cmsg) s of
             None \<Rightarrow> Inr s
           | Some (i, s1) \<Rightarrow>
               Inr (s1\<lparr>corosync_nonblock_event_list :=
                        (corosync_nonblock_event_list s1)
                          [i := (corosync_nonblock_event_list s1 ! i)
                                  \<lparr>ev_sender := cm_sender cmsg, ev_msg_len := cm_msg_len cmsg\<rparr>]\<rparr>))
      | COROSYNC_MSG_TYPE_UNBLOCK \<Rightarrow>
          (case update_event COROSYNC_EVENT_TYPE_BLOCK (cm_sender cmsg) (cm_msg cmsg)
                  (cm_msg_len cmsg) s of
             None \<Rightarrow> Inr (deliver_new_event cmsg s)
           | Some (i, s1) \<Rightarrow>
               Inr (deliver_new_event cmsg
                      (s1\<lparr>corosync_block_event_list := list_del i (corosync_block_event_list s1)\<rparr>)))
      | COROSYNC_MSG_TYPE_BLOCK \<Rightarrow> Inr (deliver_new_event cmsg s)
      | COROSYNC_MSG_TYPE_NOTIFY \<Rightarrow> Inr (deliver_new_event cmsg s)
      | COROSYNC_MSG_TYPE_LEAVE \<Rightarrow>
          (case revoke_mastership (cm_sender cmsg) s of
             Inl stop \<Rightarrow> Inl stop
           | Inr s1 \<Rightarrow>
               Inr (queue_event
                      ((xzalloc_event (SD_MAX_NODES s1))
                         \<lparr>ev_type := COROSYNC_EVENT_TYPE_LEAVE,
                          ev_sender := cm_sender cmsg,
                          ev_msg_len := cm_msg_len cmsg,
                          ev_msg := (if cm_msg_len cmsg \<noteq> 0
                                     then Some (take (cm_msg_len cmsg) (cm_msg cmsg)) else None)\<rparr>)
                      s1))
      | COROSYNC_MSG_TYPE_JOIN_RESPONSE \<Rightarrow>
          (case update_event COROSYNC_EVENT_TYPE_JOIN_REQUEST (cm_sender cmsg) (cm_msg cmsg)
                  (cm_msg_len cmsg) s of
             None \<Rightarrow> Inr s
           | Some (i, s1) \<Rightarrow>
               (let cevent = corosync_nonblock_event_list s1 ! i in
                case memcpy_nodes (ev_nodes cevent) (cm_nodes cmsg) (cm_nr_nodes cmsg) of
                  None \<Rightarrow> Inl (Out_of_bounds, s1)
                | Some nodes \<Rightarrow>
                    Inr (s1\<lparr>corosync_nonblock_event_list :=
                             (corosync_nonblock_event_list s1)
                               [i := cevent\<lparr>ev_type := COROSYNC_EVENT_TYPE_JOIN_RESPONSE,
                                            ev_result := cm_result cmsg,
                                            ev_nr_nodes := cm_nr_nodes cmsg,
                                            ev_nodes := nodes\<rparr>]\<rparr>))))"

definition cdrv_cpg_deliver :: "host \<Rightarrow> bool \<Rightarrow> corosync_message \<Rightarrow> driver \<Rightarrow> driver outcome" where
  "cdrv_cpg_deliver h incoming cmsg s =
     (case cdrv_cpg_deliver_intake cmsg s of
        Inl stop \<Rightarrow> Inl stop
      | Inr s1 \<Rightarrow> corosync_dispatch h incoming s1)"

subsection \<open>Intake: membership change\<close>

text \<open>
  \<open>build_cpg_node_list(nodes, list, nr)\<close> writes \<open>nodeid\<close> and \<open>pid\<close> of the first \<open>nr\<close>
  slots of \<open>nodes\<close> and leaves the rest of each slot as it was.
\<close>

definition build_cpg_node_list ::
  "cpg_node list \<Rightarrow> cpg_address list \<Rightarrow> nat \<Rightarrow> cpg_node list option" where
  "build_cpg_node_list nodes lst nr =
     (if nr \<le> length nodes \<and> nr \<le> length lst then
        Some (map2 (\<lambda>n a. n\<lparr>nodeid := ca_nodeid a, pid := ca_pid a\<rparr>) (take nr nodes) (take nr lst)
              @ drop nr nodes)
      else None)"

text \<open>The block under the comment \<open>check network partition\<close>.\<close>

definition check_network_partition :: "nat \<Rightarrow> nat \<Rightarrow> driver \<Rightarrow> driver outcome" where
  "check_network_partition member_list_entries left_list_entries s =
     (if left_list_entries \<noteq> 0 then
        (let s1 = (if nr_majority s = 0 then
                     (let total = member_list_entries + left_list_entries in
                      if total > 2 then s\<lparr>nr_majority := total div 2 + 1\<rparr> else s)
                   else s)
         in if member_list_entries = 0 then Inl (Panic_NIC_failure, s1)
            else if member_list_entries < nr_majority s1 then Inl (Panic_network_partition, s1)
            else Inr s1)
      else Inr s)"

text \<open>
  The loop under \<open>dispatch leave_handler\<close>, over the first \<open>left_list_entries\<close> slots of
  \<open>left_sheep\<close>.
\<close>

fun confchg_left_loop :: "cpg_node list \<Rightarrow> driver \<Rightarrow> driver outcome" where
  "confchg_left_loop [] s = Inr s"
| "confchg_left_loop (left # rest) s =
     (case find_event s COROSYNC_EVENT_TYPE_JOIN_REQUEST left of
        Some i \<Rightarrow>
          confchg_left_loop rest
            (s\<lparr>corosync_nonblock_event_list := list_del i (corosync_nonblock_event_list s)\<rparr>)
      | None \<Rightarrow>
          (let s1 = (case find_event s COROSYNC_EVENT_TYPE_BLOCK left of
                       Some i \<Rightarrow>
                         s\<lparr>corosync_block_event_list := list_del i (corosync_block_event_list s)\<rparr>
                     | None \<Rightarrow> s)
           in case revoke_mastership left s1 of
                Inl stop \<Rightarrow> Inl stop
              | Inr s2 \<Rightarrow>
                  confchg_left_loop rest
                    (queue_event
                       ((xzalloc_event (SD_MAX_NODES s2))
                          \<lparr>ev_type := COROSYNC_EVENT_TYPE_LEAVE, ev_sender := left\<rparr>) s2)))"

text \<open>The loop under \<open>dispatch join_handler\<close>.\<close>

fun confchg_joined_loop :: "cpg_node list \<Rightarrow> driver \<Rightarrow> driver" where
  "confchg_joined_loop [] s = s"
| "confchg_joined_loop (joined # rest) s =
     confchg_joined_loop rest
       (queue_event
          ((xzalloc_event (SD_MAX_NODES s))
             \<lparr>ev_type := COROSYNC_EVENT_TYPE_JOIN_REQUEST, ev_sender := joined\<rparr>) s)"

text \<open>The loop that clears \<open>promote\<close> at the first member without a join event.\<close>

fun confchg_promote :: "cpg_node list \<Rightarrow> driver \<Rightarrow> bool" where
  "confchg_promote [] s = True"
| "confchg_promote (member # rest) s =
     (case find_event s COROSYNC_EVENT_TYPE_JOIN_REQUEST member of
        None \<Rightarrow> False
      | Some i \<Rightarrow> confchg_promote rest s)"

text \<open>
  The three local arrays of \<open>cdrv_cpg_confchg\<close> are not initialised, and
  \<open>build_cpg_node_list\<close> fills two fields of each slot: what the stack held before is
  part of the input.
\<close>

record confchg_stack =
  member_sheep :: "cpg_node list"
  joined_sheep :: "cpg_node list"
  left_sheep :: "cpg_node list"

text \<open>
  \<open>cdrv_cpg_confchg\<close> up to the call of the dispatcher.  The three lists come with their
  numbers of entries, which are the lengths here.
\<close>

definition cdrv_cpg_confchg_intake ::
  "confchg_stack \<Rightarrow> cpg_address list \<Rightarrow> cpg_address list \<Rightarrow> cpg_address list \<Rightarrow> driver \<Rightarrow>
   driver outcome" where
  "cdrv_cpg_confchg_intake stack member_list left_list joined_list s =
     (case check_network_partition (length member_list) (length left_list) s of
        Inl stop \<Rightarrow> Inl stop
      | Inr s1 \<Rightarrow>
          (case (build_cpg_node_list (member_sheep stack) member_list (length member_list),
                 build_cpg_node_list (left_sheep stack) left_list (length left_list),
                 build_cpg_node_list (joined_sheep stack) joined_list (length joined_list)) of
             (Some members, Some lefts, Some joineds) \<Rightarrow>
               (case confchg_left_loop (take (length left_list) lefts) s1 of
                  Inl stop \<Rightarrow> Inl stop
                | Inr s2 \<Rightarrow>
                    (let s3 = confchg_joined_loop (take (length joined_list) joineds) s2 in
                     if \<not> join_finished s3 then
                       (if confchg_promote (take (length member_list) members) s3
                        then Inr (s3\<lparr>self_elect := True\<rparr>) else Inr s3)
                     else Inr s3))
           | _ \<Rightarrow> Inl (Out_of_bounds, s1)))"

definition cdrv_cpg_confchg ::
  "host \<Rightarrow> bool \<Rightarrow> confchg_stack \<Rightarrow> cpg_address list \<Rightarrow> cpg_address list \<Rightarrow> cpg_address list \<Rightarrow>
   driver \<Rightarrow> driver outcome" where
  "cdrv_cpg_confchg h incoming stack member_list left_list joined_list s =
     (case cdrv_cpg_confchg_intake stack member_list left_list joined_list s of
        Inl stop \<Rightarrow> Inl stop
      | Inr s1 \<Rightarrow> corosync_dispatch h incoming s1)"

subsection \<open>Runs of the driver\<close>

text \<open>
  The corosync library calls the driver through the two callbacks only, so a run of the
  driver is a list of such calls, each with the answer \<open>poll\<close> gives inside it.
\<close>

datatype intake_call =
  Deliver bool corosync_message
| Confchg bool confchg_stack "cpg_address list" "cpg_address list" "cpg_address list"

fun intake :: "host \<Rightarrow> intake_call \<Rightarrow> driver \<Rightarrow> driver outcome" where
  "intake h (Deliver incoming cmsg) s = cdrv_cpg_deliver h incoming cmsg s"
| "intake h (Confchg incoming stack member_list left_list joined_list) s =
     cdrv_cpg_confchg h incoming stack member_list left_list joined_list s"

fun run :: "host \<Rightarrow> intake_call list \<Rightarrow> driver \<Rightarrow> driver outcome" where
  "run h [] s = Inr s"
| "run h (c # cs) s = (case intake h c s of Inl stop \<Rightarrow> Inl stop | Inr s1 \<Rightarrow> run h cs s1)"

text \<open>Calls of the dispatcher alone, one for each answer of \<open>poll\<close>.\<close>

fun dispatches :: "host \<Rightarrow> bool list \<Rightarrow> driver \<Rightarrow> driver outcome" where
  "dispatches h [] s = Inr s"
| "dispatches h (incoming # rest) s =
     (case corosync_dispatch h incoming s of Inl stop \<Rightarrow> Inl stop | Inr s1 \<Rightarrow> dispatches h rest s1)"

text \<open>
  The statics when the process has called \<open>corosync_init\<close>: zero, but for the identity of
  this node.
\<close>

definition driver_init :: "cpg_node \<Rightarrow> nat \<Rightarrow> driver" where
  "driver_init myself max_nodes =
     \<lparr>this_node = myself, corosync_block_event_list = [], corosync_nonblock_event_list = [],
      cpg_nodes = replicate max_nodes zero_cpg_node, nr_cpg_nodes = 0, self_elect = False,
      join_finished = False, nr_majority = 0, upcalls = [], sent = []\<rparr>"

text \<open>The statics at the end of a run, whether the process has stopped or not.\<close>

definition outcome_state :: "driver outcome \<Rightarrow> driver" where
  "outcome_state r = (case r of Inl (why, s) \<Rightarrow> s | Inr s \<Rightarrow> s)"

subsection \<open>Notions of the specification\<close>

text \<open>The roster: the first \<open>nr_cpg_nodes\<close> slots of the array.\<close>

definition roster :: "driver \<Rightarrow> cpg_node list" where
  "roster s = take (nr_cpg_nodes s) (cpg_nodes s)"

definition node_id :: "cpg_node \<Rightarrow> 32 word \<times> 32 word" where
  "node_id n = (nodeid n, pid n)"

text \<open>No two entries of the roster have the same node id and pid.\<close>

definition roster_distinct :: "driver \<Rightarrow> bool" where
  "roster_distinct s \<longleftrightarrow> distinct (map node_id (roster s))"

text \<open>The threshold the partition check works with after it has armed \<open>nr_majority\<close>.\<close>

definition armed_majority :: "nat \<Rightarrow> nat \<Rightarrow> driver \<Rightarrow> nat" where
  "armed_majority members left s =
     (if nr_majority s = 0 \<and> members + left > 2 then (members + left) div 2 + 1
      else nr_majority s)"

fun is_check_join :: "upcall \<Rightarrow> bool" where
  "is_check_join (Sd_check_join_cb node msg) = True"
| "is_check_join other = False"

definition nr_check_join :: "driver \<Rightarrow> nat" where
  "nr_check_join s = length (filter is_check_join (upcalls s))"

text \<open>The queued join requests that \<open>check_join\<close> has not been called for.\<close>

definition fresh_join_request :: "corosync_event \<Rightarrow> bool" where
  "fresh_join_request cevent \<longleftrightarrow>
     ev_type cevent = COROSYNC_EVENT_TYPE_JOIN_REQUEST \<and> \<not> ev_callbacked cevent"

definition nr_fresh_join_requests :: "driver \<Rightarrow> nat" where
  "nr_fresh_join_requests s =
     length (filter fresh_join_request (corosync_block_event_list s)) +
     length (filter fresh_join_request (corosync_nonblock_event_list s))"

text \<open>The nodes a call reports as joined: each of them gets a \<open>JOIN_REQUEST\<close> event.\<close>

fun nr_joined :: "intake_call \<Rightarrow> nat" where
  "nr_joined (Deliver incoming cmsg) = 0"
| "nr_joined (Confchg incoming stack member_list left_list joined_list) = length joined_list"

subsection \<open>Example values\<close>

definition nodeA :: cpg_node where
  "nodeA = \<lparr>nodeid = 1, pid = 100, gone = 0, ent = 11\<rparr>"

definition nodeB :: cpg_node where
  "nodeB = \<lparr>nodeid = 2, pid = 200, gone = 0, ent = 22\<rparr>"

definition nodeC :: cpg_node where
  "nodeC = \<lparr>nodeid = 3, pid = 300, gone = 0, ent = 33\<rparr>"

definition addr_of :: "cpg_node \<Rightarrow> cpg_address" where
  "addr_of n = \<lparr>ca_nodeid = nodeid n, ca_pid = pid n\<rparr>"

text \<open>A host that lets every node join and accepts every block.\<close>

definition host_accepting :: host where
  "host_accepting =
     \<lparr>sd_check_join_cb = (\<lambda>log node msg. CJ_RES_SUCCESS), sd_block_handler = (\<lambda>log node. True)\<rparr>"

text \<open>A driver of node A with an array of four slots, the first of them given.\<close>

definition example_driver ::
  "cpg_node list \<Rightarrow> nat \<Rightarrow> corosync_event list \<Rightarrow> corosync_event list \<Rightarrow> bool \<Rightarrow> driver" where
  "example_driver slots nr blocks nonblocks joined =
     \<lparr>this_node = nodeA, corosync_block_event_list = blocks,
      corosync_nonblock_event_list = nonblocks,
      cpg_nodes = take 4 (slots @ replicate 4 zero_cpg_node), nr_cpg_nodes = nr,
      self_elect = False, join_finished = joined, nr_majority = 0, upcalls = [], sent = []\<rparr>"

definition example_event :: "corosync_event_type \<Rightarrow> cpg_node \<Rightarrow> corosync_event" where
  "example_event type sender = (xzalloc_event 4)\<lparr>ev_type := type, ev_sender := sender\<rparr>"

text \<open>A stack of four zeroed slots for each local array of \<open>cdrv_cpg_confchg\<close>.\<close>

definition example_stack :: confchg_stack where
  "example_stack =
     \<lparr>member_sheep = replicate 4 zero_cpg_node, joined_sheep = replicate 4 zero_cpg_node,
      left_sheep = replicate 4 zero_cpg_node\<rparr>"

definition example_message ::
  "corosync_message_type \<Rightarrow> cpg_node \<Rightarrow> byte list \<Rightarrow> corosync_message" where
  "example_message type sender payload =
     \<lparr>cm_sender = sender, cm_type = type, cm_result = CJ_RES_SUCCESS, cm_nr_nodes = 0,
      cm_nodes = replicate 4 zero_cpg_node, cm_msg = payload\<rparr>"

text \<open>
  A run of node B that ends with a tombstoned roster: B joins the cluster of A, A leaves,
  C enters the group, and B announces that it leaves.
\<close>

definition stale_run :: "intake_call list" where
  "stale_run =
     [Confchg False example_stack [addr_of nodeA, addr_of nodeB] [] [addr_of nodeB],
      Deliver False (example_message COROSYNC_MSG_TYPE_JOIN_REQUEST nodeB [1]),
      Deliver False ((example_message COROSYNC_MSG_TYPE_JOIN_RESPONSE nodeB [1])
         \<lparr>cm_nr_nodes := 1, cm_nodes := [nodeA, zero_cpg_node, zero_cpg_node, zero_cpg_node]\<rparr>),
      Confchg False example_stack [addr_of nodeB] [addr_of nodeA] [],
      Confchg False example_stack [addr_of nodeB, addr_of nodeC] [] [addr_of nodeC],
      Deliver False (example_message COROSYNC_MSG_TYPE_LEAVE nodeB [])]"

text \<open>States and events the theorems below are tried on.\<close>

definition leave_B :: corosync_event where
  "leave_B = example_event COROSYNC_EVENT_TYPE_LEAVE nodeB"

definition response_B :: corosync_event where
  "response_B = example_event COROSYNC_EVENT_TYPE_JOIN_RESPONSE nodeB"

definition notify_A :: corosync_event where
  "notify_A = example_event COROSYNC_EVENT_TYPE_NOTIFY nodeA"

definition block_B :: corosync_event where
  "block_B = example_event COROSYNC_EVENT_TYPE_BLOCK nodeB"

definition unblock_B :: corosync_message where
  "unblock_B = example_message COROSYNC_MSG_TYPE_UNBLOCK nodeB [7]"

text \<open>The event \<open>cdrv_cpg_deliver\<close> queues for \<open>unblock_B\<close>.\<close>

definition notify_of_unblock_B :: corosync_event where
  "notify_of_unblock_B =
     (example_event COROSYNC_EVENT_TYPE_NOTIFY nodeB)\<lparr>ev_msg := Some [7], ev_msg_len := 1\<rparr>"

text \<open>The \<open>LEAVE\<close> event a membership change queues for B: of B it has node id and pid.\<close>

definition left_B :: corosync_event where
  "left_B = example_event COROSYNC_EVENT_TYPE_LEAVE (nodeB\<lparr>ent := 0\<rparr>)"

text \<open>
  Node A before its join has finished, after the membership change that reports B as
  left: the \<open>LEAVE\<close> event is queued, and slot 0 is marked because \<open>is_master\<close> answers 0
  while the roster is empty.
\<close>

definition before_join_with_leave :: driver where
  "before_join_with_leave =
     (driver_init nodeA 4)
       \<lparr>corosync_nonblock_event_list := [left_B],
        cpg_nodes := [zero_cpg_node\<lparr>gone := 1\<rparr>, zero_cpg_node, zero_cpg_node, zero_cpg_node]\<rparr>"

text \<open>The join request of B with its payload, as the master A holds it.\<close>

definition request_B :: corosync_event where
  "request_B =
     (example_event COROSYNC_EVENT_TYPE_JOIN_REQUEST nodeB)\<lparr>ev_msg := Some [1], ev_msg_len := 1\<rparr>"

text \<open>
  The pass over this event takes the roster from the snapshot in the event: the join has
  not finished and the event is the \<open>JOIN_RESPONSE\<close> of this node.
\<close>

definition adopts_snapshot :: "driver \<Rightarrow> corosync_event \<Rightarrow> bool" where
  "adopts_snapshot s cevent \<longleftrightarrow>
     \<not> join_finished s \<and> ev_type cevent = COROSYNC_EVENT_TYPE_JOIN_RESPONSE
     \<and> cpg_node_equal (ev_sender cevent) (this_node s)"

text \<open>
  What a \<open>JOIN_RESPONSE\<close> event has to satisfy so that processing it cannot duplicate a
  node id: an adopted snapshot is free of duplicates and, unless the result is \<open>FAIL\<close>,
  does not hold the sender; otherwise, once the join has finished, the sender of a result
  other than \<open>FAIL\<close> is not in the roster.
\<close>

definition brings_new_node :: "driver \<Rightarrow> corosync_event \<Rightarrow> bool" where
  "brings_new_node s cevent \<longleftrightarrow>
     (if adopts_snapshot s cevent then
        distinct (map node_id
          (take (ev_nr_nodes cevent) (ev_nodes cevent)
           @ (if ev_result cevent = CJ_RES_FAIL then [] else [ev_sender cevent])))
      else \<not> join_finished s \<or> ev_result cevent = CJ_RES_FAIL
           \<or> node_id (ev_sender cevent) \<notin> set (map node_id (roster s)))"

text \<open>
  A run of node B in which the response to its join request carries a snapshot that
  already lists B.
\<close>

definition duplicate_run :: "intake_call list" where
  "duplicate_run =
     [Confchg False example_stack [addr_of nodeA, addr_of nodeB] [] [addr_of nodeB],
      Deliver False (example_message COROSYNC_MSG_TYPE_JOIN_REQUEST nodeB [1]),
      Deliver False ((example_message COROSYNC_MSG_TYPE_JOIN_RESPONSE nodeB [1])
         \<lparr>cm_nr_nodes := 2, cm_nodes := [nodeA, nodeB, zero_cpg_node, zero_cpg_node]\<rparr>)]"

text \<open>
  Every \<open>JOIN_RESPONSE\<close> event that a call of the drain loop comes to brings a new node.
  The recursion is that of \<open>corosync_dispatch_loop\<close>.
\<close>

function corosync_dispatch_loop_new :: "host \<Rightarrow> driver \<Rightarrow> bool" where
  "corosync_dispatch_loop_new h s =
     (if corosync_block_event_list s \<noteq> [] \<or> corosync_nonblock_event_list s \<noteq> [] then
        (ev_type (first_entry s) \<noteq> COROSYNC_EVENT_TYPE_JOIN_RESPONSE
         \<or> brings_new_node s (first_entry s))
        \<and> (case corosync_dispatch_body h s of
              Next_iteration s1 \<Rightarrow> corosync_dispatch_loop_new h s1
            | _ \<Rightarrow> True)
      else True)"
  by pat_completeness auto

termination corosync_dispatch_loop_new
proof -
  have one: "corosync_block_event_list s1 = corosync_block_event_list s \<and>
             corosync_nonblock_event_list s1 = corosync_nonblock_event_list s"
    if "corosync_dispatch_one h e s = Inr (b, e1, s1)" for h e s b e1 s1
    using that
    by (auto simp: corosync_dispatch_one_def Let_def send_message_def call_join_handler_def
          call_leave_handler_def
        split: corosync_event_type.splits if_splits cluster_join_result.splits option.splits)
  have status: "corosync_block_event_list s1 = corosync_block_event_list s \<and>
                corosync_nonblock_event_list s1 = corosync_nonblock_event_list s"
    if "update_join_status e s = Inr s1" for e s s1
    using that
    by (auto simp: update_join_status_def
        split: corosync_event_type.splits if_splits option.splits)
  have body: "nr_events s1 < nr_events s"
    if "corosync_dispatch_body h s = Next_iteration s1"
      and "corosync_block_event_list s \<noteq> [] \<or> corosync_nonblock_event_list s \<noteq> []"
    for h s s1
    using that
    by (auto simp: corosync_dispatch_body_def Let_def nr_events_def del_first_entry_def
        split: sum.splits prod.splits if_splits dest!: one status)
  show ?thesis
    by (relation "measure (\<lambda>(h, s). nr_events s)") (auto dest: body)
qed

declare corosync_dispatch_loop_new.simps [simp del]

definition corosync_dispatch_new :: "host \<Rightarrow> bool \<Rightarrow> driver \<Rightarrow> bool" where
  "corosync_dispatch_new h incoming s \<longleftrightarrow>
     incoming \<or> corosync_dispatch_loop_new h (s\<lparr>nr_majority := 0\<rparr>)"

text \<open>The part of an intake call before the dispatcher, and the answer of \<open>poll\<close> in it.\<close>

fun intake_part :: "intake_call \<Rightarrow> driver \<Rightarrow> driver outcome" where
  "intake_part (Deliver incoming cmsg) s = cdrv_cpg_deliver_intake cmsg s"
| "intake_part (Confchg incoming stack member_list left_list joined_list) s =
     cdrv_cpg_confchg_intake stack member_list left_list joined_list s"

fun incoming_of :: "intake_call \<Rightarrow> bool" where
  "incoming_of (Deliver incoming cmsg) = incoming"
| "incoming_of (Confchg incoming stack member_list left_list joined_list) = incoming"

text \<open>Every \<open>JOIN_RESPONSE\<close> event that is processed in a run brings a new node.\<close>

fun run_new :: "host \<Rightarrow> intake_call list \<Rightarrow> driver \<Rightarrow> bool" where
  "run_new h [] s = True"
| "run_new h (c # cs) s =
     (case intake_part c s of
        Inl stop \<Rightarrow> True
      | Inr s1 \<Rightarrow>
          corosync_dispatch_new h (incoming_of c) s1
          \<and> (case corosync_dispatch h (incoming_of c) s1 of
                Inl stop \<Rightarrow> True
              | Inr s2 \<Rightarrow> run_new h cs s2))"

section \<open>Auxiliary facts\<close>

subsection \<open>What a pass leaves alone, and how the process stops\<close>

lemma dispatch_one_lists:
  "corosync_dispatch_one h e s = Inr (b, e1, s1) \<Longrightarrow>
   corosync_block_event_list s1 = corosync_block_event_list s \<and>
   corosync_nonblock_event_list s1 = corosync_nonblock_event_list s"
  by (auto simp: corosync_dispatch_one_def Let_def send_message_def call_join_handler_def
       call_leave_handler_def
       split: corosync_event_type.splits if_splits cluster_join_result.splits option.splits)

lemma update_join_status_lists:
  "update_join_status e s = Inr s1 \<Longrightarrow>
   corosync_block_event_list s1 = corosync_block_event_list s \<and>
   corosync_nonblock_event_list s1 = corosync_nonblock_event_list s"
  by (auto simp: update_join_status_def
       split: corosync_event_type.splits if_splits option.splits)

lemma dispatch_one_halt:
  "corosync_dispatch_one h e s = Inl (why, s1) \<Longrightarrow>
   why = Exit_master_transfer \<or> why = Out_of_bounds"
  by (auto simp: corosync_dispatch_one_def Let_def
       split: corosync_event_type.splits if_splits cluster_join_result.splits option.splits)

lemma update_join_status_halt:
  "update_join_status e s = Inl (why, s1) \<Longrightarrow> why = Out_of_bounds"
  by (auto simp: update_join_status_def
       split: corosync_event_type.splits if_splits option.splits)

lemma dispatch_body_halt:
  "corosync_dispatch_body h s = Halted why s1 \<Longrightarrow>
   why = Exit_master_transfer \<or> why = Out_of_bounds"
  by (auto simp: corosync_dispatch_body_def Let_def
       split: sum.splits prod.splits if_splits
       dest: dispatch_one_halt update_join_status_halt)

lemma dispatch_loop_halt:
  "corosync_dispatch_loop h s = Inl (why, s1) \<Longrightarrow>
   why = Exit_master_transfer \<or> why = Out_of_bounds"
proof (induction h s rule: corosync_dispatch_loop.induct)
  case (1 h s)
  show ?case
  proof (cases "corosync_block_event_list s \<noteq> [] \<or> corosync_nonblock_event_list s \<noteq> []")
    case False
    with "1.prems" show ?thesis by (simp add: corosync_dispatch_loop.simps[of h s])
  next
    case True
    show ?thesis
    proof (cases "corosync_dispatch_body h s")
      case (Halted w t)
      with True "1.prems" show ?thesis
        by (auto simp: corosync_dispatch_loop.simps[of h s] dest: dispatch_body_halt)
    next
      case (Returned t)
      with True "1.prems" show ?thesis by (simp add: corosync_dispatch_loop.simps[of h s])
    next
      case (Next_iteration t)
      with True "1.prems" have "corosync_dispatch_loop h t = Inl (why, s1)"
        by (simp add: corosync_dispatch_loop.simps[of h s])
      with "1.IH" True Next_iteration show ?thesis by blast
    qed
  qed
qed

lemma dispatch_halt:
  "corosync_dispatch h incoming s = Inl (why, s1) \<Longrightarrow>
   why = Exit_master_transfer \<or> why = Out_of_bounds"
  by (auto simp: corosync_dispatch_def split: if_splits dest: dispatch_loop_halt)

lemma revoke_mastership_halt:
  "revoke_mastership n s = Inl (why, s1) \<Longrightarrow> why = Out_of_bounds"
  by (auto simp: revoke_mastership_def Let_def split: if_splits option.splits)

lemma confchg_left_loop_halt:
  "confchg_left_loop ls s = Inl (why, s1) \<Longrightarrow> why = Out_of_bounds"
proof (induction ls arbitrary: s)
  case Nil
  then show ?case by simp
next
  case (Cons l ls)
  then show ?case
    by (auto simp: Let_def split: option.splits sum.splits dest: revoke_mastership_halt)
qed

lemma check_network_partition_eq:
  "l \<noteq> 0 \<Longrightarrow> check_network_partition m l s =
     (if m = 0 then Inl (Panic_NIC_failure, s\<lparr>nr_majority := armed_majority m l s\<rparr>)
      else if m < armed_majority m l s
      then Inl (Panic_network_partition, s\<lparr>nr_majority := armed_majority m l s\<rparr>)
      else Inr (s\<lparr>nr_majority := armed_majority m l s\<rparr>))"
  by (simp add: check_network_partition_def armed_majority_def Let_def)

lemma confchg_after_check:
  assumes "check_network_partition (length ml) (length ll) s = Inr s1"
    and "cdrv_cpg_confchg h inc stk ml ll jl s = Inl (why, s2)"
  shows "why = Exit_master_transfer \<or> why = Out_of_bounds"
  using assms
  by (auto simp: cdrv_cpg_confchg_def cdrv_cpg_confchg_intake_def Let_def
      split: sum.splits option.splits if_splits prod.splits
      dest: confchg_left_loop_halt dispatch_halt)

lemma confchg_check_fails:
  assumes "check_network_partition (length ml) (length ll) s = Inl stop"
  shows "cdrv_cpg_confchg h inc stk ml ll jl s = Inl stop"
  using assms by (simp add: cdrv_cpg_confchg_def cdrv_cpg_confchg_intake_def)

subsection \<open>Searching and shifting the roster array\<close>

lemma find_cpg_node_loop_negative:
  "find_cpg_node_loop ns key i < 0 \<longleftrightarrow> (\<forall>n\<in>set ns. \<not> cpg_node_equal n key)"
  by (induction ns arbitrary: i) auto

lemma find_cpg_node_loop_first:
  "j < length ns \<Longrightarrow> cpg_node_equal (ns ! j) key \<Longrightarrow>
   (\<forall>k<j. \<not> cpg_node_equal (ns ! k) key) \<Longrightarrow>
   find_cpg_node_loop ns key i = int (i + j)"
proof (induction ns arbitrary: i j)
  case Nil
  then show ?case by simp
next
  case (Cons n ns)
  show ?case
  proof (cases j)
    case 0
    with Cons.prems show ?thesis by simp
  next
    case (Suc j')
    have "\<not> cpg_node_equal n key" using Cons.prems(3) Suc by force
    moreover have "find_cpg_node_loop ns key (Suc i) = int (Suc i + j')"
      using Cons.prems Suc by (intro Cons.IH) auto
    ultimately show ?thesis using Suc by simp
  qed
qed

lemma find_cpg_node_loop_ent:
  "find_cpg_node_loop ns (k\<lparr>ent := e\<rparr>) i = find_cpg_node_loop ns k i"
  by (induction ns arbitrary: i) (auto simp: cpg_node_equal_def)

lemma take_add_cpg_node:
  "nr < length nodes \<Longrightarrow> take (nr + 1) (nodes[nr := x]) = take nr nodes @ [x]"
  by (simp add: take_Suc_conv_app_nth)

lemma take_memmove_nodes:
  assumes "idx < nr" "nr \<le> length nodes"
  shows "take (nr - 1) (memmove_nodes nodes idx (idx + 1) ((nr - 1) - idx)) =
         take idx (take nr nodes) @ drop (Suc idx) (take nr nodes)"
proof -
  let ?front = "take idx nodes @ take ((nr - 1) - idx) (drop (idx + 1) nodes)"
  have len: "length ?front = nr - 1" using assms by simp
  have "memmove_nodes nodes idx (idx + 1) ((nr - 1) - idx) = ?front @ drop (nr - 1) nodes"
    using assms by (simp add: memmove_nodes_def)
  then have "take (nr - 1) (memmove_nodes nodes idx (idx + 1) ((nr - 1) - idx)) = ?front"
    using len by (metis append_eq_conv_conj)
  moreover have "take idx (take nr nodes) = take idx nodes" using assms by (simp add: min_def)
  moreover have "drop (Suc idx) (take nr nodes) = take ((nr - 1) - idx) (drop (idx + 1) nodes)"
    by (simp add: drop_take)
  ultimately show ?thesis by simp
qed

lemma nth_memmove_nodes_moved:
  assumes "idx < nr" "nr \<le> length nodes" "idx \<le> i" "i < nr - 1"
  shows "memmove_nodes nodes idx (idx + 1) ((nr - 1) - idx) ! i = nodes ! (i + 1)"
  using assms by (simp add: memmove_nodes_def nth_append)

lemma nth_memmove_nodes_before:
  assumes "idx < nr" "nr \<le> length nodes" "i < idx"
  shows "memmove_nodes nodes idx (idx + 1) ((nr - 1) - idx) ! i = nodes ! i"
  using assms by (simp add: memmove_nodes_def nth_append)


subsection \<open>\<open>join_finished\<close> is never reset\<close>

lemma dispatch_one_join_finished:
  "corosync_dispatch_one h e s = Inr (b, e1, s1) \<Longrightarrow> join_finished s1 = join_finished s"
  by (auto simp: corosync_dispatch_one_def Let_def send_message_def call_join_handler_def
       call_leave_handler_def
       split: corosync_event_type.splits if_splits cluster_join_result.splits option.splits)

lemma update_join_status_unfinished:
  "update_join_status e s = Inr s1 \<Longrightarrow> \<not> join_finished s1 \<Longrightarrow> s1 = s"
  by (auto simp: update_join_status_def
       split: corosync_event_type.splits if_splits option.splits)

lemma update_join_status_finished:
  "join_finished s \<Longrightarrow> update_join_status e s = Inr s"
  by (simp add: update_join_status_def)

lemma dispatch_body_join_finished:
  assumes "join_finished s"
    and "corosync_dispatch_body h s = Returned s1 \<or> corosync_dispatch_body h s = Next_iteration s1"
  shows "join_finished s1"
  using assms
  by (auto simp: corosync_dispatch_body_def Let_def update_join_status_finished
        store_first_entry_def del_first_entry_def
      split: sum.splits prod.splits if_splits dest!: dispatch_one_join_finished)

lemma dispatch_loop_join_finished:
  "join_finished s \<Longrightarrow> corosync_dispatch_loop h s = Inr s1 \<Longrightarrow> join_finished s1"
proof (induction h s rule: corosync_dispatch_loop.induct)
  case (1 h s)
  show ?case
  proof (cases "corosync_block_event_list s \<noteq> [] \<or> corosync_nonblock_event_list s \<noteq> []")
    case False
    with "1.prems" show ?thesis by (simp add: corosync_dispatch_loop.simps[of h s])
  next
    case True
    show ?thesis
    proof (cases "corosync_dispatch_body h s")
      case (Halted w t)
      with True "1.prems" show ?thesis by (simp add: corosync_dispatch_loop.simps[of h s])
    next
      case (Returned t)
      with True "1.prems" show ?thesis
        using dispatch_body_join_finished[of s h t]
        by (simp add: corosync_dispatch_loop.simps[of h s])
    next
      case (Next_iteration t)
      with True "1.prems" have l: "corosync_dispatch_loop h t = Inr s1"
        by (simp add: corosync_dispatch_loop.simps[of h s])
      have "join_finished t"
        using dispatch_body_join_finished[of s h t] "1.prems"(1) Next_iteration by simp
      with "1.IH" True Next_iteration l show ?thesis by blast
    qed
  qed
qed

text \<open>A pass that leaves \<open>join_finished\<close> false has deleted the event or done nothing.\<close>

lemma dispatch_body_unfinished:
  assumes "corosync_dispatch_body h s = Returned s1 \<or> corosync_dispatch_body h s = Next_iteration s1"
    and "\<not> join_finished s1"
  shows "s1 = s \<or> s1 = del_first_entry s"
proof -
  have nf: "\<not> join_finished s" using assms dispatch_body_join_finished by blast
  show ?thesis
  proof (cases "update_join_status (first_entry s) s")
    case (Inl a)
    with assms show ?thesis by (auto simp: corosync_dispatch_body_def split: prod.splits)
  next
    case (Inr t)
    show ?thesis
    proof (cases "join_finished t")
      case True
      with Inr assms show ?thesis
        by (auto simp: corosync_dispatch_body_def Let_def store_first_entry_def del_first_entry_def
            split: sum.splits prod.splits if_splits dest!: dispatch_one_join_finished)
    next
      case False
      then have "t = s" using Inr update_join_status_unfinished by blast
      with Inr False assms show ?thesis
        by (auto simp: corosync_dispatch_body_def Let_def split: if_splits)
    qed
  qed
qed

lemma dispatch_loop_unfinished:
  "corosync_dispatch_loop h s = Inr s1 \<Longrightarrow> \<not> join_finished s1 \<Longrightarrow>
   upcalls s1 = upcalls s \<and> sent s1 = sent s \<and> cpg_nodes s1 = cpg_nodes s
     \<and> nr_cpg_nodes s1 = nr_cpg_nodes s"
proof (induction h s rule: corosync_dispatch_loop.induct)
  case (1 h s)
  show ?case
  proof (cases "corosync_block_event_list s \<noteq> [] \<or> corosync_nonblock_event_list s \<noteq> []")
    case False
    with "1.prems" show ?thesis by (simp add: corosync_dispatch_loop.simps[of h s])
  next
    case True
    show ?thesis
    proof (cases "corosync_dispatch_body h s")
      case (Halted w t)
      with True "1.prems" show ?thesis by (simp add: corosync_dispatch_loop.simps[of h s])
    next
      case (Returned t)
      with True "1.prems" have "t = s1" by (simp add: corosync_dispatch_loop.simps[of h s])
      then have "s1 = s \<or> s1 = del_first_entry s"
        using dispatch_body_unfinished[of h s s1] Returned "1.prems"(2) by simp
      then show ?thesis by (auto simp: del_first_entry_def)
    next
      case (Next_iteration t)
      with True "1.prems" have l: "corosync_dispatch_loop h t = Inr s1"
        by (simp add: corosync_dispatch_loop.simps[of h s])
      have "\<not> join_finished t"
        using dispatch_loop_join_finished[OF _ l] "1.prems"(2) by blast
      then have "t = s \<or> t = del_first_entry s"
        using dispatch_body_unfinished[of h s t] Next_iteration by simp
      then have t: "upcalls t = upcalls s \<and> sent t = sent s \<and> cpg_nodes t = cpg_nodes s
          \<and> nr_cpg_nodes t = nr_cpg_nodes s"
        by (auto simp: del_first_entry_def)
      from "1.IH"[OF True Next_iteration l "1.prems"(2)] t show ?thesis by simp
    qed
  qed
qed

subsection \<open>Counting the calls of \<open>sd_check_join_cb\<close>\<close>

lemma nr_check_join_append:
  "nr_check_join (s\<lparr>upcalls := upcalls s @ [u]\<rparr>) =
     nr_check_join s + (if is_check_join u then 1 else 0)"
  by (simp add: nr_check_join_def)

lemma nr_fresh_first_entry:
  assumes "corosync_block_event_list s \<noteq> [] \<or> corosync_nonblock_event_list s \<noteq> []"
  shows "nr_fresh_join_requests s =
     (if fresh_join_request (first_entry s) then 1 else 0)
       + nr_fresh_join_requests (del_first_entry s)"
  using assms
  by (cases "corosync_nonblock_event_list s"; cases "corosync_block_event_list s")
     (simp_all add: nr_fresh_join_requests_def first_entry_def del_first_entry_def)

lemma nr_fresh_store_first_entry:
  assumes "corosync_block_event_list s \<noteq> [] \<or> corosync_nonblock_event_list s \<noteq> []"
  shows "nr_fresh_join_requests (store_first_entry e s) =
     (if fresh_join_request e then 1 else 0) + nr_fresh_join_requests (del_first_entry s)"
  using assms
  by (cases "corosync_nonblock_event_list s"; cases "corosync_block_event_list s")
     (simp_all add: nr_fresh_join_requests_def store_first_entry_def del_first_entry_def)

lemma nr_fresh_same_lists:
  assumes "corosync_block_event_list s1 = corosync_block_event_list s
     \<and> corosync_nonblock_event_list s1 = corosync_nonblock_event_list s"
  shows "nr_fresh_join_requests s1 = nr_fresh_join_requests s"
    and "nr_fresh_join_requests (del_first_entry s1) = nr_fresh_join_requests (del_first_entry s)"
    and "nr_fresh_join_requests (store_first_entry e s1)
         = nr_fresh_join_requests (store_first_entry e s)"
  using assms
  by (simp_all add: nr_fresh_join_requests_def del_first_entry_def store_first_entry_def)

lemma dispatch_one_check_join:
  assumes "corosync_dispatch_one h e s = Inr (b, e1, s1)"
  shows "nr_check_join s1 + (if fresh_join_request e1 then 1 else 0)
         \<le> nr_check_join s + (if fresh_join_request e then 1 else 0)"
  using assms
  by (auto simp: corosync_dispatch_one_def Let_def send_message_def call_join_handler_def
        call_leave_handler_def nr_check_join_def fresh_join_request_def
      split: corosync_event_type.splits if_splits cluster_join_result.splits option.splits)

lemma dispatch_one_check_join_halt:
  assumes "corosync_dispatch_one h e s = Inl (why, s1)"
  shows "nr_check_join s1 \<le> nr_check_join s + (if fresh_join_request e then 1 else 0)
     \<and> corosync_block_event_list s1 = corosync_block_event_list s
     \<and> corosync_nonblock_event_list s1 = corosync_nonblock_event_list s"
  using assms
  by (auto simp: corosync_dispatch_one_def Let_def send_message_def
        nr_check_join_def fresh_join_request_def
      split: corosync_event_type.splits if_splits cluster_join_result.splits option.splits)

lemma update_join_status_upcalls:
  "update_join_status e s = Inr s1 \<Longrightarrow> upcalls s1 = upcalls s"
  "update_join_status e s = Inl (why, s1) \<Longrightarrow> s1 = s"
  by (auto simp: update_join_status_def
       split: corosync_event_type.splits if_splits option.splits)

lemma nr_check_join_same_upcalls:
  "upcalls s1 = upcalls s \<Longrightarrow> nr_check_join s1 = nr_check_join s"
  by (simp add: nr_check_join_def)

lemma dispatch_body_check_join:
  assumes ne: "corosync_block_event_list s \<noteq> [] \<or> corosync_nonblock_event_list s \<noteq> []"
  shows "corosync_dispatch_body h s = Returned t \<or> corosync_dispatch_body h s = Next_iteration t
           \<Longrightarrow> nr_check_join t + nr_fresh_join_requests t
               \<le> nr_check_join s + nr_fresh_join_requests s"
    and "corosync_dispatch_body h s = Halted why t
           \<Longrightarrow> nr_check_join t \<le> nr_check_join s + nr_fresh_join_requests s"
proof -
  let ?e = "first_entry s"
  note split = nr_fresh_first_entry[OF ne]
  {
    assume a: "corosync_dispatch_body h s = Returned t \<or> corosync_dispatch_body h s = Next_iteration t"
    then obtain s1 where u: "update_join_status ?e s = Inr s1"
      by (cases "update_join_status ?e s") (auto simp: corosync_dispatch_body_def split: prod.splits)
    have l1: "corosync_block_event_list s1 = corosync_block_event_list s
       \<and> corosync_nonblock_event_list s1 = corosync_nonblock_event_list s"
      using update_join_status_lists[OF u] .
    have c1: "nr_check_join s1 = nr_check_join s"
      using update_join_status_upcalls(1)[OF u] by (rule nr_check_join_same_upcalls)
    show "nr_check_join t + nr_fresh_join_requests t
               \<le> nr_check_join s + nr_fresh_join_requests s"
    proof (cases "join_finished s1")
      case False
      with a u have "t = s1 \<or> t = del_first_entry s1"
        by (auto simp: corosync_dispatch_body_def Let_def split: if_splits)
      then show ?thesis
        using c1 nr_fresh_same_lists(1,2)[OF l1] split
        by (auto simp: nr_check_join_def del_first_entry_def)
    next
      case True
      with a u obtain b e1 s2 where o: "corosync_dispatch_one h ?e s1 = Inr (b, e1, s2)"
        by (cases "corosync_dispatch_one h ?e s1")
           (auto simp: corosync_dispatch_body_def Let_def split: prod.splits)
      have l2: "corosync_block_event_list s2 = corosync_block_event_list s
         \<and> corosync_nonblock_event_list s2 = corosync_nonblock_event_list s"
        using dispatch_one_lists[OF o] l1 by simp
      have ne2: "corosync_block_event_list s2 \<noteq> [] \<or> corosync_nonblock_event_list s2 \<noteq> []"
        using l2 ne by simp
      have t: "t = (if b then del_first_entry s2 else store_first_entry e1 s2)"
        using a u True o by (auto simp: corosync_dispatch_body_def Let_def)
      have ct: "nr_check_join t = nr_check_join s2"
        using t by (auto simp: nr_check_join_def del_first_entry_def store_first_entry_def)
      have ft: "nr_fresh_join_requests t \<le> (if fresh_join_request e1 then 1 else 0)
            + nr_fresh_join_requests (del_first_entry s)"
        using t nr_fresh_store_first_entry[OF ne2, of e1] nr_fresh_same_lists(2)[OF l2]
        by auto
      from dispatch_one_check_join[OF o] c1 ct ft split show ?thesis by simp
    qed
  }
  {
    assume a: "corosync_dispatch_body h s = Halted why t"
    show "nr_check_join t \<le> nr_check_join s + nr_fresh_join_requests s"
    proof (cases "update_join_status ?e s")
      case (Inl x)
      with a have "update_join_status ?e s = Inl (why, t)"
        by (auto simp: corosync_dispatch_body_def split: prod.splits)
      from update_join_status_upcalls(2)[OF this] show ?thesis by simp
    next
      case (Inr s1)
      have c1: "nr_check_join s1 = nr_check_join s"
        using update_join_status_upcalls(1)[OF Inr] by (rule nr_check_join_same_upcalls)
      from a Inr have "corosync_dispatch_one h ?e s1 = Inl (why, t)"
        by (auto simp: corosync_dispatch_body_def Let_def split: if_splits sum.splits prod.splits)
      from dispatch_one_check_join_halt[OF this] c1 split show ?thesis by simp
    qed
  }
qed

lemma dispatch_loop_check_join:
  "(corosync_dispatch_loop h s = Inr t \<longrightarrow>
      nr_check_join t + nr_fresh_join_requests t \<le> nr_check_join s + nr_fresh_join_requests s)
   \<and> (corosync_dispatch_loop h s = Inl (why, t) \<longrightarrow>
      nr_check_join t \<le> nr_check_join s + nr_fresh_join_requests s)"
proof (induction h s rule: corosync_dispatch_loop.induct)
  case (1 h s)
  show ?case
  proof (cases "corosync_block_event_list s \<noteq> [] \<or> corosync_nonblock_event_list s \<noteq> []")
    case False
    then show ?thesis by (simp add: corosync_dispatch_loop.simps[of h s])
  next
    case True
    show ?thesis
    proof (cases "corosync_dispatch_body h s")
      case (Halted w u)
      with True dispatch_body_check_join(2)[OF True, of h w u] show ?thesis
        by (auto simp: corosync_dispatch_loop.simps[of h s])
    next
      case (Returned u)
      with True dispatch_body_check_join(1)[OF True, of h u] show ?thesis
        by (auto simp: corosync_dispatch_loop.simps[of h s])
    next
      case (Next_iteration u)
      have step: "nr_check_join u + nr_fresh_join_requests u
          \<le> nr_check_join s + nr_fresh_join_requests s"
        using dispatch_body_check_join(1)[OF True, of h u] Next_iteration by simp
      have eq: "corosync_dispatch_loop h s = corosync_dispatch_loop h u"
        using True Next_iteration by (simp add: corosync_dispatch_loop.simps[of h s])
      from "1.IH"[OF True Next_iteration] step show ?thesis unfolding eq by auto
    qed
  qed
qed

lemma dispatch_check_join:
  "(corosync_dispatch h incoming s = Inr t \<longrightarrow>
      nr_check_join t + nr_fresh_join_requests t \<le> nr_check_join s + nr_fresh_join_requests s)
   \<and> (corosync_dispatch h incoming s = Inl (why, t) \<longrightarrow>
      nr_check_join t \<le> nr_check_join s + nr_fresh_join_requests s)"
proof (cases incoming)
  case True
  then show ?thesis by (simp add: corosync_dispatch_def)
next
  case False
  have "nr_check_join (s\<lparr>nr_majority := 0\<rparr>) = nr_check_join s"
    "nr_fresh_join_requests (s\<lparr>nr_majority := 0\<rparr>) = nr_fresh_join_requests s"
    by (simp_all add: nr_check_join_def nr_fresh_join_requests_def)
  with dispatch_loop_check_join[of h "s\<lparr>nr_majority := 0\<rparr>" t why] False show ?thesis
    by (simp add: corosync_dispatch_def)
qed

lemma dispatches_check_join:
  "(dispatches h polls s = Inr t \<longrightarrow>
      nr_check_join t + nr_fresh_join_requests t \<le> nr_check_join s + nr_fresh_join_requests s)
   \<and> (dispatches h polls s = Inl (why, t) \<longrightarrow>
      nr_check_join t \<le> nr_check_join s + nr_fresh_join_requests s)"
proof (induction polls arbitrary: s)
  case Nil
  then show ?case by simp
next
  case (Cons p polls)
  show ?case
  proof (cases "corosync_dispatch h p s")
    case (Inl x)
    then show ?thesis using dispatch_check_join[of h p s t why] by (cases x) auto
  next
    case (Inr u)
    with dispatch_check_join[of h p s u] have
      "nr_check_join u + nr_fresh_join_requests u \<le> nr_check_join s + nr_fresh_join_requests s"
      by simp
    with Cons.IH[of u] Inr show ?thesis by auto
  qed
qed


lemma find_event_loop_Some:
  "find_event_loop evs ty sndr i = Some k \<Longrightarrow>
   i \<le> k \<and> k - i < length evs \<and> ev_type (evs ! (k - i)) = ty"
proof (induction evs arbitrary: i)
  case Nil
  then show ?case by simp
next
  case (Cons e evs)
  show ?case
  proof (cases "ev_type e = ty \<and> cpg_node_equal (ev_sender e) sndr")
    case True
    with Cons.prems show ?thesis by simp
  next
    case False
    with Cons.prems have "find_event_loop evs ty sndr (Suc i) = Some k" by auto
    from Cons.IH[OF this] show ?thesis by (auto simp: Suc_diff_le)
  qed
qed

lemma filter_count_update:
  "k < length xs \<Longrightarrow> (P x \<longrightarrow> P (xs ! k)) \<Longrightarrow>
   length (filter P (xs[k := x])) \<le> length (filter P xs)"
proof (induction xs arbitrary: k)
  case Nil
  then show ?case by simp
next
  case (Cons y ys)
  then show ?case by (cases k) auto
qed

lemma filter_count_list_del:
  "length (filter P (list_del k xs)) \<le> length (filter P xs)"
proof (induction xs arbitrary: k)
  case Nil
  then show ?case by (simp add: list_del_def)
next
  case (Cons y ys)
  show ?case
  proof (cases k)
    case 0
    then show ?thesis by (simp add: list_del_def)
  next
    case (Suc j)
    with Cons.IH[of j] show ?thesis by (simp add: list_del_def)
  qed
qed

lemma update_event_fresh:
  assumes "update_event ty sndr msg len s = Some (i, s1)"
  shows "nr_fresh_join_requests s1 \<le> nr_fresh_join_requests s"
    and "upcalls s1 = upcalls s"
    and "i < length (event_list s1 ty)"
    and "ev_type (event_list s1 ty ! i) = ty"
proof -
  from assms obtain k where f: "find_event s ty sndr = Some k"
    by (auto simp: update_event_def split: option.splits)
  have k: "k < length (event_list s ty) \<and> ev_type (event_list s ty ! k) = ty"
    using f find_event_loop_Some[of "event_list s ty" ty sndr 0 k]
    by (auto simp: find_event_def find_block_event_def find_nonblock_event_def event_list_def
        split: if_splits)
  let ?e = "(event_list s ty ! k)\<lparr>ev_msg_len := len,
              ev_msg := (if len \<noteq> 0 then Some (take len msg) else None)\<rparr>"
  have s1: "s1 = set_event_list ty ((event_list s ty)[k := ?e]) s" and i: "i = k"
    using assms f by (auto simp: update_event_def Let_def)
  have fr: "fresh_join_request ?e \<longrightarrow> fresh_join_request (event_list s ty ! k)"
    by (simp add: fresh_join_request_def)
  have c: "length (filter fresh_join_request ((event_list s ty)[k := ?e]))
      \<le> length (filter fresh_join_request (event_list s ty))"
    using filter_count_update[OF conjunct1[OF k] fr] .
  show "nr_fresh_join_requests s1 \<le> nr_fresh_join_requests s"
    using c unfolding s1
    by (auto simp: nr_fresh_join_requests_def set_event_list_def event_list_def split: if_splits)
  show "upcalls s1 = upcalls s" unfolding s1 by (simp add: set_event_list_def)
  show "i < length (event_list s1 ty)"
    using k unfolding s1 i by (auto simp: set_event_list_def event_list_def)
  show "ev_type (event_list s1 ty ! i) = ty"
    using k unfolding s1 i by (auto simp: set_event_list_def event_list_def)
qed

lemma nr_fresh_queue_event:
  "nr_fresh_join_requests (queue_event e s) =
     nr_fresh_join_requests s + (if fresh_join_request e then 1 else 0)"
  by (auto simp: queue_event_def nr_fresh_join_requests_def fresh_join_request_def)

lemma revoke_mastership_fresh:
  "revoke_mastership n s = Inr s1 \<Longrightarrow>
     nr_fresh_join_requests s1 = nr_fresh_join_requests s \<and> upcalls s1 = upcalls s"
  "revoke_mastership n s = Inl (why, s1) \<Longrightarrow> s1 = s"
  by (auto simp: revoke_mastership_def Let_def nr_fresh_join_requests_def
      split: if_splits option.splits)

lemma deliver_new_event_fresh:
  "nr_fresh_join_requests (deliver_new_event cmsg s) = nr_fresh_join_requests s"
  "upcalls (deliver_new_event cmsg s) = upcalls s"
proof -
  show "nr_fresh_join_requests (deliver_new_event cmsg s) = nr_fresh_join_requests s"
    by (simp add: deliver_new_event_def nr_fresh_queue_event fresh_join_request_def)
  show "upcalls (deliver_new_event cmsg s) = upcalls s"
    by (simp add: deliver_new_event_def queue_event_def)
qed

lemma queue_event_upcalls: "upcalls (queue_event e s) = upcalls s"
  by (simp add: queue_event_def)

lemma deliver_intake_fresh:
  "(cdrv_cpg_deliver_intake cmsg s = Inr s1 \<or> cdrv_cpg_deliver_intake cmsg s = Inl (why, s1))
   \<Longrightarrow> nr_fresh_join_requests s1 \<le> nr_fresh_join_requests s \<and> upcalls s1 = upcalls s"
proof (cases "cm_type cmsg")
  case COROSYNC_MSG_TYPE_JOIN_REQUEST
  assume a: "cdrv_cpg_deliver_intake cmsg s = Inr s1 \<or> cdrv_cpg_deliver_intake cmsg s = Inl (why, s1)"
  show ?thesis
  proof (cases "update_event COROSYNC_EVENT_TYPE_JOIN_REQUEST (cm_sender cmsg) (cm_msg cmsg)
                  (cm_msg_len cmsg) s")
    case None
    with a COROSYNC_MSG_TYPE_JOIN_REQUEST show ?thesis
      by (auto simp: cdrv_cpg_deliver_intake_def)
  next
    case (Some p)
    obtain i t where p: "p = (i, t)" by (cases p)
    note u = update_event_fresh[OF Some[unfolded p]]
    let ?l = "corosync_nonblock_event_list t"
    let ?e = "(?l ! i)\<lparr>ev_sender := cm_sender cmsg, ev_msg_len := cm_msg_len cmsg\<rparr>"
    have s1: "s1 = t\<lparr>corosync_nonblock_event_list := ?l[i := ?e]\<rparr>"
      using a COROSYNC_MSG_TYPE_JOIN_REQUEST Some p by (auto simp: cdrv_cpg_deliver_intake_def)
    have i: "i < length ?l" using u(3) by (simp add: event_list_def)
    have "fresh_join_request ?e \<longrightarrow> fresh_join_request (?l ! i)"
      by (simp add: fresh_join_request_def)
    from filter_count_update[OF i this] have
      "nr_fresh_join_requests s1 \<le> nr_fresh_join_requests t"
      unfolding s1 by (simp add: nr_fresh_join_requests_def)
    with u(1,2) show ?thesis unfolding s1 by simp
  qed
next
  case COROSYNC_MSG_TYPE_JOIN_RESPONSE
  assume a: "cdrv_cpg_deliver_intake cmsg s = Inr s1 \<or> cdrv_cpg_deliver_intake cmsg s = Inl (why, s1)"
  show ?thesis
  proof (cases "update_event COROSYNC_EVENT_TYPE_JOIN_REQUEST (cm_sender cmsg) (cm_msg cmsg)
                  (cm_msg_len cmsg) s")
    case None
    with a COROSYNC_MSG_TYPE_JOIN_RESPONSE show ?thesis
      by (auto simp: cdrv_cpg_deliver_intake_def)
  next
    case (Some p)
    obtain i t where p: "p = (i, t)" by (cases p)
    note u = update_event_fresh[OF Some[unfolded p]]
    let ?l = "corosync_nonblock_event_list t"
    have i: "i < length ?l" using u(3) by (simp add: event_list_def)
    show ?thesis
    proof (cases "memcpy_nodes (ev_nodes (?l ! i)) (cm_nodes cmsg) (cm_nr_nodes cmsg)")
      case None
      with a COROSYNC_MSG_TYPE_JOIN_RESPONSE Some p have "s1 = t"
        by (auto simp: cdrv_cpg_deliver_intake_def Let_def)
      with u(1,2) show ?thesis by simp
    next
      case (Some nodes)
      let ?e = "(?l ! i)\<lparr>ev_type := COROSYNC_EVENT_TYPE_JOIN_RESPONSE,
                  ev_result := cm_result cmsg, ev_nr_nodes := cm_nr_nodes cmsg,
                  ev_nodes := nodes\<rparr>"
      have s1: "s1 = t\<lparr>corosync_nonblock_event_list := ?l[i := ?e]\<rparr>"
        using a COROSYNC_MSG_TYPE_JOIN_RESPONSE \<open>update_event _ _ _ _ s = Some p\<close> p Some
        by (auto simp: cdrv_cpg_deliver_intake_def Let_def)
      have "fresh_join_request ?e \<longrightarrow> fresh_join_request (?l ! i)"
        by (simp add: fresh_join_request_def)
      from filter_count_update[OF i this] have
        "nr_fresh_join_requests s1 \<le> nr_fresh_join_requests t"
        unfolding s1 by (simp add: nr_fresh_join_requests_def)
      with u(1,2) show ?thesis unfolding s1 by simp
    qed
  qed
next
  case COROSYNC_MSG_TYPE_LEAVE
  assume a: "cdrv_cpg_deliver_intake cmsg s = Inr s1 \<or> cdrv_cpg_deliver_intake cmsg s = Inl (why, s1)"
  show ?thesis
  proof (cases "revoke_mastership (cm_sender cmsg) s")
    case (Inl x)
    with a COROSYNC_MSG_TYPE_LEAVE have "revoke_mastership (cm_sender cmsg) s = Inl (why, s1)"
      by (auto simp: cdrv_cpg_deliver_intake_def)
    from revoke_mastership_fresh(2)[OF this] show ?thesis by simp
  next
    case (Inr t)
    let ?e = "(xzalloc_event (SD_MAX_NODES t))
                \<lparr>ev_type := COROSYNC_EVENT_TYPE_LEAVE, ev_sender := cm_sender cmsg,
                 ev_msg_len := cm_msg_len cmsg,
                 ev_msg := (if cm_msg_len cmsg \<noteq> 0
                            then Some (take (cm_msg_len cmsg) (cm_msg cmsg)) else None)\<rparr>"
    have s1: "s1 = queue_event ?e t"
      using a COROSYNC_MSG_TYPE_LEAVE Inr by (auto simp: cdrv_cpg_deliver_intake_def)
    have "nr_fresh_join_requests s1 = nr_fresh_join_requests t"
      unfolding s1 by (simp add: nr_fresh_queue_event fresh_join_request_def)
    moreover have "upcalls s1 = upcalls t" unfolding s1 by (rule queue_event_upcalls)
    ultimately show ?thesis using revoke_mastership_fresh(1)[OF Inr] by simp
  qed
next
  case COROSYNC_MSG_TYPE_NOTIFY
  assume "cdrv_cpg_deliver_intake cmsg s = Inr s1 \<or> cdrv_cpg_deliver_intake cmsg s = Inl (why, s1)"
  with COROSYNC_MSG_TYPE_NOTIFY have "s1 = deliver_new_event cmsg s"
    by (auto simp: cdrv_cpg_deliver_intake_def)
  then show ?thesis using deliver_new_event_fresh[of cmsg s] by simp
next
  case COROSYNC_MSG_TYPE_BLOCK
  assume "cdrv_cpg_deliver_intake cmsg s = Inr s1 \<or> cdrv_cpg_deliver_intake cmsg s = Inl (why, s1)"
  with COROSYNC_MSG_TYPE_BLOCK have "s1 = deliver_new_event cmsg s"
    by (auto simp: cdrv_cpg_deliver_intake_def)
  then show ?thesis using deliver_new_event_fresh[of cmsg s] by simp
next
  case COROSYNC_MSG_TYPE_UNBLOCK
  assume a: "cdrv_cpg_deliver_intake cmsg s = Inr s1 \<or> cdrv_cpg_deliver_intake cmsg s = Inl (why, s1)"
  show ?thesis
  proof (cases "update_event COROSYNC_EVENT_TYPE_BLOCK (cm_sender cmsg) (cm_msg cmsg)
                  (cm_msg_len cmsg) s")
    case None
    with a COROSYNC_MSG_TYPE_UNBLOCK have "s1 = deliver_new_event cmsg s"
      by (auto simp: cdrv_cpg_deliver_intake_def)
    then show ?thesis using deliver_new_event_fresh[of cmsg s] by simp
  next
    case (Some p)
    obtain i t where p: "p = (i, t)" by (cases p)
    note u = update_event_fresh[OF Some[unfolded p]]
    let ?t = "t\<lparr>corosync_block_event_list := list_del i (corosync_block_event_list t)\<rparr>"
    have s1: "s1 = deliver_new_event cmsg ?t"
      using a COROSYNC_MSG_TYPE_UNBLOCK Some p by (auto simp: cdrv_cpg_deliver_intake_def)
    have "nr_fresh_join_requests ?t \<le> nr_fresh_join_requests t"
      using filter_count_list_del[of fresh_join_request i "corosync_block_event_list t"]
      by (simp add: nr_fresh_join_requests_def)
    moreover have "nr_fresh_join_requests s1 = nr_fresh_join_requests ?t"
      unfolding s1 by (rule deliver_new_event_fresh(1))
    moreover have "upcalls s1 = upcalls t"
      unfolding s1 by (simp add: deliver_new_event_fresh(2))
    ultimately show ?thesis using u(1,2) by simp
  qed
qed

lemma confchg_left_loop_fresh:
  "confchg_left_loop ls s = Inr t \<or> confchg_left_loop ls s = Inl (why, t) \<Longrightarrow>
   nr_fresh_join_requests t \<le> nr_fresh_join_requests s \<and> upcalls t = upcalls s"
proof (induction ls arbitrary: s)
  case Nil
  then show ?case by simp
next
  case (Cons left rest)
  show ?case
  proof (cases "find_event s COROSYNC_EVENT_TYPE_JOIN_REQUEST left")
    case (Some i)
    let ?s = "s\<lparr>corosync_nonblock_event_list := list_del i (corosync_nonblock_event_list s)\<rparr>"
    have "confchg_left_loop rest ?s = Inr t \<or> confchg_left_loop rest ?s = Inl (why, t)"
      using Cons.prems Some by simp
    from Cons.IH[OF this] have
      "nr_fresh_join_requests t \<le> nr_fresh_join_requests ?s \<and> upcalls t = upcalls ?s" .
    moreover have "nr_fresh_join_requests ?s \<le> nr_fresh_join_requests s"
      using filter_count_list_del[of fresh_join_request i "corosync_nonblock_event_list s"]
      by (simp add: nr_fresh_join_requests_def)
    ultimately show ?thesis by simp
  next
    case None
    let ?s1 = "(case find_event s COROSYNC_EVENT_TYPE_BLOCK left of
                 Some i \<Rightarrow>
                   s\<lparr>corosync_block_event_list := list_del i (corosync_block_event_list s)\<rparr>
               | None \<Rightarrow> s)"
    have f1: "nr_fresh_join_requests ?s1 \<le> nr_fresh_join_requests s \<and> upcalls ?s1 = upcalls s"
      using filter_count_list_del[of fresh_join_request _ "corosync_block_event_list s"]
      by (auto simp: nr_fresh_join_requests_def split: option.splits)
    show ?thesis
    proof (cases "revoke_mastership left ?s1")
      case (Inl x)
      with Cons.prems None have "revoke_mastership left ?s1 = Inl (why, t)"
        by (auto simp: Let_def)
      from revoke_mastership_fresh(2)[OF this] f1 show ?thesis by simp
    next
      case (Inr s2)
      let ?e = "(xzalloc_event (SD_MAX_NODES s2))
                  \<lparr>ev_type := COROSYNC_EVENT_TYPE_LEAVE, ev_sender := left\<rparr>"
      have "confchg_left_loop rest (queue_event ?e s2) = Inr t
          \<or> confchg_left_loop rest (queue_event ?e s2) = Inl (why, t)"
        using Cons.prems None Inr by (auto simp: Let_def)
      from Cons.IH[OF this] have
        "nr_fresh_join_requests t \<le> nr_fresh_join_requests (queue_event ?e s2)
         \<and> upcalls t = upcalls (queue_event ?e s2)" .
      moreover have "nr_fresh_join_requests (queue_event ?e s2) = nr_fresh_join_requests s2"
        by (simp add: nr_fresh_queue_event fresh_join_request_def)
      ultimately show ?thesis
        using revoke_mastership_fresh(1)[OF Inr] f1 by (simp add: queue_event_upcalls)
    qed
  qed
qed

lemma confchg_joined_loop_fresh:
  "nr_fresh_join_requests (confchg_joined_loop js s) \<le> nr_fresh_join_requests s + length js
   \<and> upcalls (confchg_joined_loop js s) = upcalls s
   \<and> join_finished (confchg_joined_loop js s) = join_finished s"
proof (induction js arbitrary: s)
  case Nil
  then show ?case by simp
next
  case (Cons j js)
  let ?e = "(xzalloc_event (SD_MAX_NODES s))
              \<lparr>ev_type := COROSYNC_EVENT_TYPE_JOIN_REQUEST, ev_sender := j\<rparr>"
  have "nr_fresh_join_requests (queue_event ?e s) \<le> nr_fresh_join_requests s + 1"
    by (simp add: nr_fresh_queue_event)
  moreover have "join_finished (queue_event ?e s) = join_finished s"
    by (simp add: queue_event_def)
  ultimately show ?case using Cons.IH[of "queue_event ?e s"]
    by (simp add: queue_event_upcalls)
qed

lemma check_network_partition_fresh:
  "check_network_partition m l s = Inr t \<or> check_network_partition m l s = Inl (why, t) \<Longrightarrow>
   nr_fresh_join_requests t = nr_fresh_join_requests s \<and> upcalls t = upcalls s"
  by (auto simp: check_network_partition_def Let_def nr_fresh_join_requests_def
      split: if_splits)

lemma confchg_intake_fresh:
  assumes "cdrv_cpg_confchg_intake stk ml ll jl s = Inr t
     \<or> cdrv_cpg_confchg_intake stk ml ll jl s = Inl (why, t)"
  shows "nr_fresh_join_requests t \<le> nr_fresh_join_requests s + length jl
     \<and> upcalls t = upcalls s"
proof (cases "check_network_partition (length ml) (length ll) s")
  case (Inl x)
  with assms have "check_network_partition (length ml) (length ll) s = Inl (why, t)"
    by (auto simp: cdrv_cpg_confchg_intake_def)
  with check_network_partition_fresh[of "length ml" "length ll" s t why] show ?thesis by simp
next
  case (Inr s1)
  have c: "nr_fresh_join_requests s1 = nr_fresh_join_requests s \<and> upcalls s1 = upcalls s"
    using check_network_partition_fresh[of "length ml" "length ll" s s1] Inr by simp
  show ?thesis
  proof (cases "\<exists>ms ls js. build_cpg_node_list (member_sheep stk) ml (length ml) = Some ms
       \<and> build_cpg_node_list (left_sheep stk) ll (length ll) = Some ls
       \<and> build_cpg_node_list (joined_sheep stk) jl (length jl) = Some js")
    case False
    with assms Inr have "t = s1"
      by (auto simp: cdrv_cpg_confchg_intake_def split: option.splits)
    with c show ?thesis by simp
  next
    case True
    then obtain ms ls js where b:
      "build_cpg_node_list (member_sheep stk) ml (length ml) = Some ms"
      "build_cpg_node_list (left_sheep stk) ll (length ll) = Some ls"
      "build_cpg_node_list (joined_sheep stk) jl (length jl) = Some js"
      by blast
    show ?thesis
    proof (cases "confchg_left_loop (take (length ll) ls) s1")
      case (Inl x)
      with assms Inr b have "confchg_left_loop (take (length ll) ls) s1 = Inl (why, t)"
        by (auto simp: cdrv_cpg_confchg_intake_def)
      with confchg_left_loop_fresh[of "take (length ll) ls" s1 t why] c show ?thesis by simp
    next
      case (Inr s2)
      have l: "nr_fresh_join_requests s2 \<le> nr_fresh_join_requests s1 \<and> upcalls s2 = upcalls s1"
        using confchg_left_loop_fresh[of "take (length ll) ls" s1 s2] Inr by simp
      let ?s3 = "confchg_joined_loop (take (length jl) js) s2"
      have j: "nr_fresh_join_requests ?s3 \<le> nr_fresh_join_requests s2 + length jl
         \<and> upcalls ?s3 = upcalls s2"
        using confchg_joined_loop_fresh[of "take (length jl) js" s2]
        by (auto simp: min_def split: if_splits)
      have "t = ?s3 \<or> t = ?s3\<lparr>self_elect := True\<rparr>"
        using assms \<open>check_network_partition (length ml) (length ll) s = Inr s1\<close> b Inr
        by (auto simp: cdrv_cpg_confchg_intake_def Let_def split: if_splits)
      then have "nr_fresh_join_requests t = nr_fresh_join_requests ?s3 \<and> upcalls t = upcalls ?s3"
        by (auto simp: nr_fresh_join_requests_def)
      with j l c show ?thesis by simp
    qed
  qed
qed

lemma intake_check_join:
  "(intake h c s = Inr t \<longrightarrow>
      nr_check_join t + nr_fresh_join_requests t
        \<le> nr_check_join s + nr_fresh_join_requests s + nr_joined c)
   \<and> (intake h c s = Inl (why, t) \<longrightarrow>
      nr_check_join t \<le> nr_check_join s + nr_fresh_join_requests s + nr_joined c)"
proof (cases c)
  case (Deliver incoming cmsg)
  show ?thesis
  proof (cases "cdrv_cpg_deliver_intake cmsg s")
    case (Inl x)
    then have "intake h c s = Inl x" using Deliver by (simp add: cdrv_cpg_deliver_def)
    moreover have "x = (why, t) \<Longrightarrow> nr_check_join t = nr_check_join s"
      using deliver_intake_fresh[of cmsg s t why] Inl by (simp add: nr_check_join_def)
    ultimately show ?thesis by auto
  next
    case (Inr s1)
    have i: "nr_fresh_join_requests s1 \<le> nr_fresh_join_requests s
       \<and> nr_check_join s1 = nr_check_join s"
      using deliver_intake_fresh[of cmsg s s1] Inr by (simp add: nr_check_join_def)
    have "intake h c s = corosync_dispatch h incoming s1"
      using Deliver Inr by (simp add: cdrv_cpg_deliver_def)
    with dispatch_check_join[of h incoming s1 t why] i show ?thesis by auto
  qed
next
  case (Confchg incoming stk ml ll jl)
  show ?thesis
  proof (cases "cdrv_cpg_confchg_intake stk ml ll jl s")
    case (Inl x)
    then have "intake h c s = Inl x" using Confchg by (simp add: cdrv_cpg_confchg_def)
    moreover have "x = (why, t) \<Longrightarrow> nr_check_join t = nr_check_join s"
      using confchg_intake_fresh[of stk ml ll jl s t why] Inl by (simp add: nr_check_join_def)
    ultimately show ?thesis by auto
  next
    case (Inr s1)
    have i: "nr_fresh_join_requests s1 \<le> nr_fresh_join_requests s + length jl
       \<and> nr_check_join s1 = nr_check_join s"
      using confchg_intake_fresh[of stk ml ll jl s s1] Inr by (simp add: nr_check_join_def)
    have "intake h c s = corosync_dispatch h incoming s1"
      using Confchg Inr by (simp add: cdrv_cpg_confchg_def)
    with dispatch_check_join[of h incoming s1 t why] i Confchg show ?thesis by auto
  qed
qed

lemma run_check_join:
  "(run h calls s = Inr t \<longrightarrow>
      nr_check_join t + nr_fresh_join_requests t
        \<le> nr_check_join s + nr_fresh_join_requests s + sum_list (map nr_joined calls))
   \<and> (run h calls s = Inl (why, t) \<longrightarrow>
      nr_check_join t
        \<le> nr_check_join s + nr_fresh_join_requests s + sum_list (map nr_joined calls))"
proof (induction calls arbitrary: s)
  case Nil
  then show ?case by simp
next
  case (Cons c calls)
  show ?case
  proof (cases "intake h c s")
    case (Inl x)
    then show ?thesis using intake_check_join[of h c s t why] by (cases x) auto
  next
    case (Inr u)
    with intake_check_join[of h c s u] have
      "nr_check_join u + nr_fresh_join_requests u
         \<le> nr_check_join s + nr_fresh_join_requests s + nr_joined c"
      by simp
    with Cons.IH[of u] Inr show ?thesis by auto
  qed
qed

subsection \<open>The node ids in the roster\<close>

lemma find_cpg_node_loop_range:
  "0 \<le> find_cpg_node_loop ns key i \<Longrightarrow>
   int i \<le> find_cpg_node_loop ns key i \<and> find_cpg_node_loop ns key i < int (i + length ns)"
proof (induction ns arbitrary: i)
  case Nil
  then show ?case by simp
next
  case (Cons n ns)
  show ?case
  proof (cases "cpg_node_equal n key")
    case True
    then show ?thesis by simp
  next
    case False
    with Cons.prems have "0 \<le> find_cpg_node_loop ns key (Suc i)" by simp
    from Cons.IH[OF this] False show ?thesis by simp
  qed
qed

lemma distinct_without_one:
  "distinct ys \<Longrightarrow> distinct (take i ys @ drop (Suc i) ys)"
proof (induction ys arbitrary: i)
  case Nil
  then show ?case by simp
next
  case (Cons y ys)
  show ?case
  proof (cases i)
    case 0
    with Cons.prems show ?thesis by simp
  next
    case (Suc j)
    have "y \<notin> set (take j ys)" "y \<notin> set (drop (Suc j) ys)"
      using Cons.prems by (auto dest: in_set_takeD in_set_dropD)
    with Cons.IH[of j] Cons.prems Suc show ?thesis by simp
  qed
qed

lemma map_node_id_set_gone:
  "i < length nodes \<Longrightarrow>
   map node_id (nodes[i := (nodes ! i)\<lparr>gone := 1\<rparr>]) = map node_id nodes"
  by (simp add: map_update list_update_same_conv node_id_def)

lemma cpg_node_equal_node_id: "cpg_node_equal a b \<longleftrightarrow> node_id a = node_id b"
  by (auto simp: cpg_node_equal_def node_id_def)

lemma revoke_mastership_roster:
  "revoke_mastership n s = Inr t \<Longrightarrow>
   map node_id (cpg_nodes t) = map node_id (cpg_nodes s) \<and> nr_cpg_nodes t = nr_cpg_nodes s"
  by (auto simp: revoke_mastership_def Let_def set_gone_def map_node_id_set_gone
      split: if_splits option.splits)

lemma roster_ids_eq:
  "map node_id (cpg_nodes t) = map node_id (cpg_nodes s) \<Longrightarrow> nr_cpg_nodes t = nr_cpg_nodes s
   \<Longrightarrow> map node_id (roster t) = map node_id (roster s)"
  by (simp add: roster_def take_map[symmetric])

lemma update_event_roster:
  "update_event ty sndr msg len s = Some (i, t) \<Longrightarrow>
   cpg_nodes t = cpg_nodes s \<and> nr_cpg_nodes t = nr_cpg_nodes s"
  by (auto simp: update_event_def Let_def set_event_list_def split: option.splits if_splits)

lemma deliver_intake_roster:
  assumes "cdrv_cpg_deliver_intake cmsg s = Inr t"
  shows "map node_id (cpg_nodes t) = map node_id (cpg_nodes s)
     \<and> nr_cpg_nodes t = nr_cpg_nodes s"
proof (cases "cm_type cmsg")
  case COROSYNC_MSG_TYPE_LEAVE
  with assms show ?thesis
    by (auto simp: cdrv_cpg_deliver_intake_def queue_event_def
        split: sum.splits dest!: revoke_mastership_roster)
qed (use assms in \<open>auto simp: cdrv_cpg_deliver_intake_def deliver_new_event_def queue_event_def
       Let_def split: option.splits prod.splits dest!: update_event_roster\<close>)

lemma confchg_left_loop_roster:
  "confchg_left_loop ls s = Inr t \<Longrightarrow>
   map node_id (cpg_nodes t) = map node_id (cpg_nodes s) \<and> nr_cpg_nodes t = nr_cpg_nodes s"
proof (induction ls arbitrary: s)
  case Nil
  then show ?case by simp
next
  case (Cons left rest)
  show ?case
  proof (cases "find_event s COROSYNC_EVENT_TYPE_JOIN_REQUEST left")
    case (Some i)
    with Cons.prems Cons.IH[of "s\<lparr>corosync_nonblock_event_list :=
        list_del i (corosync_nonblock_event_list s)\<rparr>"] show ?thesis by simp
  next
    case None
    let ?s1 = "(case find_event s COROSYNC_EVENT_TYPE_BLOCK left of
                 Some i \<Rightarrow>
                   s\<lparr>corosync_block_event_list := list_del i (corosync_block_event_list s)\<rparr>
               | None \<Rightarrow> s)"
    have f1: "cpg_nodes ?s1 = cpg_nodes s \<and> nr_cpg_nodes ?s1 = nr_cpg_nodes s"
      by (auto split: option.splits)
    from Cons.prems None obtain s2 where r: "revoke_mastership left ?s1 = Inr s2"
      and l: "confchg_left_loop rest
                (queue_event ((xzalloc_event (SD_MAX_NODES s2))
                   \<lparr>ev_type := COROSYNC_EVENT_TYPE_LEAVE, ev_sender := left\<rparr>) s2) = Inr t"
      by (auto simp: Let_def split: sum.splits)
    from Cons.IH[OF l] revoke_mastership_roster[OF r] f1 show ?thesis
      by (simp add: queue_event_def)
  qed
qed

lemma confchg_joined_loop_roster:
  "cpg_nodes (confchg_joined_loop js s) = cpg_nodes s
   \<and> nr_cpg_nodes (confchg_joined_loop js s) = nr_cpg_nodes s"
proof (induction js arbitrary: s)
  case Nil
  then show ?case by simp
next
  case (Cons j js)
  let ?e = "(xzalloc_event (SD_MAX_NODES s))
              \<lparr>ev_type := COROSYNC_EVENT_TYPE_JOIN_REQUEST, ev_sender := j\<rparr>"
  show ?case using Cons.IH[of "queue_event ?e s"] by (simp add: queue_event_def)
qed

lemma confchg_intake_roster:
  assumes "cdrv_cpg_confchg_intake stk ml ll jl s = Inr t"
  shows "map node_id (cpg_nodes t) = map node_id (cpg_nodes s)
     \<and> nr_cpg_nodes t = nr_cpg_nodes s"
proof -
  from assms obtain s1 where c: "check_network_partition (length ml) (length ll) s = Inr s1"
    by (auto simp: cdrv_cpg_confchg_intake_def split: sum.splits)
  have c1: "cpg_nodes s1 = cpg_nodes s \<and> nr_cpg_nodes s1 = nr_cpg_nodes s"
    using c by (auto simp: check_network_partition_def Let_def split: if_splits)
  from assms c obtain ls js s2 where
    l: "confchg_left_loop (take (length ll) ls) s1 = Inr s2"
    and t: "t = confchg_joined_loop (take (length jl) js) s2
       \<or> t = (confchg_joined_loop (take (length jl) js) s2)\<lparr>self_elect := True\<rparr>"
    by (auto simp: cdrv_cpg_confchg_intake_def Let_def
        split: sum.splits option.splits if_splits)
  from t confchg_joined_loop_roster[of "take (length jl) js" s2]
  have "cpg_nodes t = cpg_nodes s2 \<and> nr_cpg_nodes t = nr_cpg_nodes s2" by auto
  with confchg_left_loop_roster[OF l] c1 show ?thesis by simp
qed


lemma length_memmove_nodes:
  "idx < nr \<Longrightarrow> nr \<le> length nodes \<Longrightarrow>
   length (memmove_nodes nodes idx (idx + 1) ((nr - 1) - idx)) = length nodes"
  by (simp add: memmove_nodes_def)

lemma find_cpg_node_range:
  assumes "0 \<le> find_cpg_node nodes nr key" "nr \<le> length nodes"
  shows "nat (find_cpg_node nodes nr key) < nr"
  using find_cpg_node_loop_range[of "take nr nodes" key 0] assms
  by (simp add: find_cpg_node_def)

lemma dispatch_one_leave_roster:
  assumes "ev_type e = COROSYNC_EVENT_TYPE_LEAVE"
    and "nr_cpg_nodes s \<le> length (cpg_nodes s)"
    and "corosync_dispatch_one h e s = Inr (b, e1, t) \<or> corosync_dispatch_one h e s = Inl (why, t)"
  shows "nr_cpg_nodes t \<le> length (cpg_nodes t)
     \<and> (roster t = roster s
        \<or> (\<exists>idx. roster t = take idx (roster s) @ drop (Suc idx) (roster s)))"
proof (cases "find_cpg_node (cpg_nodes s) (nr_cpg_nodes s) (ev_sender e) < 0")
  case True
  with assms show ?thesis by (auto simp: corosync_dispatch_one_def)
next
  case False
  let ?nr = "nr_cpg_nodes s" and ?nodes = "cpg_nodes s"
  let ?idx = "nat (find_cpg_node ?nodes ?nr (ev_sender e))"
  have idx: "?idx < ?nr" using find_cpg_node_range[OF _ assms(2)] False by simp
  let ?e1 = "e\<lparr>ev_sender := (ev_sender e)\<lparr>ent := ent (?nodes ! ?idx)\<rparr>\<rparr>"
  have f1: "find_cpg_node ?nodes ?nr (ev_sender ?e1) = find_cpg_node ?nodes ?nr (ev_sender e)"
    by (simp add: find_cpg_node_def find_cpg_node_loop_ent)
  let ?nodes1 = "memmove_nodes ?nodes ?idx (?idx + 1) ((?nr - 1) - ?idx)"
  have d: "del_cpg_node ?nodes ?nr (ev_sender ?e1) = ?nodes1"
    using f1 False by (simp add: del_cpg_node_def Let_def)
  have "corosync_dispatch_one h e s =
      Inr (True, ?e1, call_leave_handler ?e1 (s\<lparr>cpg_nodes := ?nodes1, nr_cpg_nodes := ?nr - 1\<rparr>))"
    using assms(1) False d by (simp add: corosync_dispatch_one_def Let_def)
  with assms(3) have t: "t = call_leave_handler ?e1 (s\<lparr>cpg_nodes := ?nodes1, nr_cpg_nodes := ?nr - 1\<rparr>)"
    by auto
  have r: "roster t = take ?idx (roster s) @ drop (Suc ?idx) (roster s)"
    unfolding t using take_memmove_nodes[OF idx assms(2)]
    by (simp add: roster_def call_leave_handler_def)
  have l: "nr_cpg_nodes t \<le> length (cpg_nodes t)"
    unfolding t using length_memmove_nodes[OF idx assms(2)] assms(2)
    by (simp add: call_leave_handler_def)
  show ?thesis using r l by blast
qed

lemma dispatch_one_distinct:
  assumes "roster_distinct s" and "nr_cpg_nodes s \<le> length (cpg_nodes s)"
    and "ev_type e = COROSYNC_EVENT_TYPE_JOIN_RESPONSE \<and> ev_result e \<noteq> CJ_RES_FAIL \<longrightarrow>
           node_id (ev_sender e) \<notin> set (map node_id (roster s))"
    and "corosync_dispatch_one h e s = Inr (b, e1, t) \<or> corosync_dispatch_one h e s = Inl (why, t)"
  shows "roster_distinct t \<and> nr_cpg_nodes t \<le> length (cpg_nodes t)"
proof (cases "ev_type e")
  case COROSYNC_EVENT_TYPE_JOIN_REQUEST
  with assms(1,2,4) show ?thesis
    by (auto simp: corosync_dispatch_one_def Let_def send_message_def roster_distinct_def
          roster_def split: if_splits)
next
  case COROSYNC_EVENT_TYPE_JOIN_RESPONSE
  show ?thesis
  proof (cases "ev_result e = CJ_RES_FAIL")
    case True
    with assms(1,2,4) COROSYNC_EVENT_TYPE_JOIN_RESPONSE show ?thesis
      by (auto simp: corosync_dispatch_one_def call_join_handler_def roster_distinct_def
            roster_def)
  next
    case False
    show ?thesis
    proof (cases "nr_cpg_nodes s < length (cpg_nodes s)")
      case room: True
      let ?s0 = "s\<lparr>cpg_nodes := (cpg_nodes s)[nr_cpg_nodes s := ev_sender e],
                   nr_cpg_nodes := nr_cpg_nodes s + 1\<rparr>"
      have "corosync_dispatch_one h e s = Inr (True, e, call_join_handler e ?s0)"
        using COROSYNC_EVENT_TYPE_JOIN_RESPONSE False room
        by (cases "ev_result e") (simp_all add: corosync_dispatch_one_def add_cpg_node_def)
      with assms(4) have t: "t = call_join_handler e ?s0" by auto
      have r: "roster t = roster s @ [ev_sender e]"
        unfolding t using take_add_cpg_node[OF room]
        by (simp add: roster_def call_join_handler_def)
      have "roster_distinct t"
        using assms(1,3) COROSYNC_EVENT_TYPE_JOIN_RESPONSE False
        unfolding roster_distinct_def r by simp
      moreover have "nr_cpg_nodes t \<le> length (cpg_nodes t)"
        unfolding t using room by (simp add: call_join_handler_def)
      ultimately show ?thesis by blast
    next
      case full: False
      have "corosync_dispatch_one h e s = Inl (Out_of_bounds, s)"
        using COROSYNC_EVENT_TYPE_JOIN_RESPONSE False full
        by (cases "ev_result e") (simp_all add: corosync_dispatch_one_def add_cpg_node_def)
      with assms(1,2,4) show ?thesis by auto
    qed
  qed
next
  case COROSYNC_EVENT_TYPE_LEAVE
  from dispatch_one_leave_roster[OF COROSYNC_EVENT_TYPE_LEAVE assms(2) assms(4)]
  have l: "nr_cpg_nodes t \<le> length (cpg_nodes t)"
    and r: "roster t = roster s
        \<or> (\<exists>idx. roster t = take idx (roster s) @ drop (Suc idx) (roster s))"
    by blast+
  have "roster_distinct t"
  proof -
    from r consider "roster t = roster s"
      | idx where "roster t = take idx (roster s) @ drop (Suc idx) (roster s)" by blast
    then show ?thesis
    proof cases
      case 1
      with assms(1) show ?thesis by (simp add: roster_distinct_def)
    next
      case 2
      have "map node_id (roster t) =
          take idx (map node_id (roster s)) @ drop (Suc idx) (map node_id (roster s))"
        unfolding 2 by (simp add: take_map drop_map)
      with distinct_without_one[of "map node_id (roster s)" idx] assms(1)
      show ?thesis by (simp add: roster_distinct_def)
    qed
  qed
  with l show ?thesis by blast
next
  case COROSYNC_EVENT_TYPE_BLOCK
  with assms(1,2,4) show ?thesis
    by (auto simp: corosync_dispatch_one_def roster_distinct_def roster_def split: if_splits)
next
  case COROSYNC_EVENT_TYPE_NOTIFY
  with assms(1,2,4) show ?thesis
    by (auto simp: corosync_dispatch_one_def roster_distinct_def roster_def)
qed

lemma update_join_status_distinct:
  assumes "roster_distinct s" and "nr_cpg_nodes s \<le> length (cpg_nodes s)"
    and "ev_type e = COROSYNC_EVENT_TYPE_JOIN_RESPONSE \<longrightarrow> brings_new_node s e"
    and "update_join_status e s = Inr s1"
  shows "roster_distinct s1 \<and> nr_cpg_nodes s1 \<le> length (cpg_nodes s1)
     \<and> (join_finished s1 \<and> ev_type e = COROSYNC_EVENT_TYPE_JOIN_RESPONSE
          \<and> ev_result e \<noteq> CJ_RES_FAIL \<longrightarrow>
            node_id (ev_sender e) \<notin> set (map node_id (roster s1)))"
proof (cases "adopts_snapshot s e")
  case True
  then have ty: "ev_type e = COROSYNC_EVENT_TYPE_JOIN_RESPONSE" and nf: "\<not> join_finished s"
    and own: "cpg_node_equal (ev_sender e) (this_node s)"
    by (simp_all add: adopts_snapshot_def)
  let ?n = "ev_nr_nodes e"
  from assms(4) ty nf own obtain nodes where
    m: "memcpy_nodes (cpg_nodes s) (ev_nodes e) ?n = Some nodes"
    and s1: "s1 = s\<lparr>join_finished := True, nr_cpg_nodes := ?n, cpg_nodes := nodes\<rparr>"
    by (auto simp: update_join_status_def split: option.splits)
  from m have n: "?n \<le> length (cpg_nodes s)" "?n \<le> length (ev_nodes e)"
    and nodes: "nodes = take ?n (ev_nodes e) @ drop ?n (cpg_nodes s)"
    by (auto simp: memcpy_nodes_def split: if_splits)
  have r: "roster s1 = take ?n (ev_nodes e)"
    unfolding s1 roster_def nodes using n by simp
  have d: "distinct (map node_id
          (take ?n (ev_nodes e) @ (if ev_result e = CJ_RES_FAIL then [] else [ev_sender e])))"
    using assms(3) ty True by (simp add: brings_new_node_def)
  have "roster_distinct s1" using d unfolding roster_distinct_def r by simp
  moreover have "nr_cpg_nodes s1 \<le> length (cpg_nodes s1)"
    unfolding s1 nodes using n by simp
  moreover have "ev_result e \<noteq> CJ_RES_FAIL \<longrightarrow>
      node_id (ev_sender e) \<notin> set (map node_id (roster s1))"
    using d unfolding r by auto
  ultimately show ?thesis by blast
next
  case False
  show ?thesis
  proof (cases "join_finished s")
    case True
    then have "s1 = s" using assms(4) by (simp add: update_join_status_def)
    moreover have "ev_type e = COROSYNC_EVENT_TYPE_JOIN_RESPONSE \<and> ev_result e \<noteq> CJ_RES_FAIL
        \<longrightarrow> node_id (ev_sender e) \<notin> set (map node_id (roster s))"
      using assms(3) False True by (auto simp: brings_new_node_def)
    ultimately show ?thesis using assms(1,2) by simp
  next
    case nf: False
    show ?thesis
    proof (cases "ev_type e = COROSYNC_EVENT_TYPE_JOIN_RESPONSE")
      case True
      with False nf have "\<not> cpg_node_equal (ev_sender e) (this_node s)"
        by (simp add: adopts_snapshot_def)
      with True nf assms(4) have "s1 = s" by (simp add: update_join_status_def)
      with assms(1,2) nf show ?thesis by simp
    next
      case other: False
      with nf assms(4) have "s1 = s \<or> s1 = s\<lparr>join_finished := True, nr_cpg_nodes := 0\<rparr>"
        by (auto simp: update_join_status_def split: corosync_event_type.splits if_splits)
      with assms(1,2) other show ?thesis
        by (auto simp: roster_distinct_def roster_def)
    qed
  qed
qed

lemma dispatch_body_distinct:
  assumes "roster_distinct s" and "nr_cpg_nodes s \<le> length (cpg_nodes s)"
    and "ev_type (first_entry s) = COROSYNC_EVENT_TYPE_JOIN_RESPONSE \<longrightarrow>
           brings_new_node s (first_entry s)"
    and "corosync_dispatch_body h s = Returned t \<or> corosync_dispatch_body h s = Next_iteration t
       \<or> corosync_dispatch_body h s = Halted why t"
  shows "roster_distinct t \<and> nr_cpg_nodes t \<le> length (cpg_nodes t)"
proof (cases "update_join_status (first_entry s) s")
  case (Inl x)
  then have "x = (Out_of_bounds, s)"
    by (auto simp: update_join_status_def
        split: corosync_event_type.splits if_splits option.splits)
  with Inl assms(4) have "t = s" by (auto simp: corosync_dispatch_body_def)
  with assms(1,2) show ?thesis by simp
next
  case (Inr s1)
  note u = update_join_status_distinct[OF assms(1-3) Inr]
  have u1: "roster_distinct s1 \<and> nr_cpg_nodes s1 \<le> length (cpg_nodes s1)" using u by blast
  show ?thesis
  proof (cases "join_finished s1")
    case False
    with Inr assms(4) have "t = s1 \<or> t = del_first_entry s1"
      by (auto simp: corosync_dispatch_body_def Let_def split: if_splits)
    with u1 show ?thesis by (auto simp: roster_distinct_def roster_def del_first_entry_def)
  next
    case True
    let ?e = "first_entry s"
    have new: "ev_type ?e = COROSYNC_EVENT_TYPE_JOIN_RESPONSE \<and> ev_result ?e \<noteq> CJ_RES_FAIL
        \<longrightarrow> node_id (ev_sender ?e) \<notin> set (map node_id (roster s1))"
      using u True by blast
    show ?thesis
    proof (cases "corosync_dispatch_one h ?e s1")
      case (Inl x)
      obtain w s2 where x: "x = (w, s2)" by (cases x)
      with Inl Inr True assms(4) have "t = s2"
        by (auto simp: corosync_dispatch_body_def Let_def)
      with dispatch_one_distinct[OF conjunct1[OF u] conjunct1[OF conjunct2[OF u]] new,
          of h False ?e t w] Inl x
      show ?thesis by simp
    next
      case (Inr y)
      obtain b e1 s2 where y: "y = (b, e1, s2)" by (cases y)
      have d: "roster_distinct s2 \<and> nr_cpg_nodes s2 \<le> length (cpg_nodes s2)"
        using dispatch_one_distinct[OF conjunct1[OF u] conjunct1[OF conjunct2[OF u]] new,
          of h b e1 s2] Inr y by simp
      have "t = store_first_entry e1 s2 \<or> t = del_first_entry s2"
        using \<open>update_join_status (first_entry s) s = Inr s1\<close> True Inr y assms(4)
        by (auto simp: corosync_dispatch_body_def Let_def split: if_splits)
      with d show ?thesis
        by (auto simp: roster_distinct_def roster_def del_first_entry_def store_first_entry_def)
    qed
  qed
qed

lemma same_ids_distinct:
  assumes "map node_id (cpg_nodes t) = map node_id (cpg_nodes s)"
    and "nr_cpg_nodes t = nr_cpg_nodes s"
  shows "roster_distinct t = roster_distinct s"
    and "length (cpg_nodes t) = length (cpg_nodes s)"
proof -
  show "roster_distinct t = roster_distinct s"
    using roster_ids_eq[OF assms] by (simp add: roster_distinct_def)
  show "length (cpg_nodes t) = length (cpg_nodes s)"
    using assms(1) by (metis length_map)
qed

lemma deliver_intake_roster_halt:
  assumes "cdrv_cpg_deliver_intake cmsg s = Inl (why, t)"
  shows "map node_id (cpg_nodes t) = map node_id (cpg_nodes s)
     \<and> nr_cpg_nodes t = nr_cpg_nodes s"
  using assms
  by (cases "cm_type cmsg")
     (auto simp: cdrv_cpg_deliver_intake_def Let_def revoke_mastership_def
        split: option.splits prod.splits sum.splits if_splits dest!: update_event_roster)

lemma confchg_left_loop_roster_halt:
  "confchg_left_loop ls s = Inl (why, t) \<Longrightarrow>
   map node_id (cpg_nodes t) = map node_id (cpg_nodes s) \<and> nr_cpg_nodes t = nr_cpg_nodes s"
proof (induction ls arbitrary: s)
  case Nil
  then show ?case by simp
next
  case (Cons left rest)
  show ?case
  proof (cases "find_event s COROSYNC_EVENT_TYPE_JOIN_REQUEST left")
    case (Some i)
    with Cons.prems Cons.IH[of "s\<lparr>corosync_nonblock_event_list :=
        list_del i (corosync_nonblock_event_list s)\<rparr>"] show ?thesis by simp
  next
    case None
    let ?s1 = "(case find_event s COROSYNC_EVENT_TYPE_BLOCK left of
                 Some i \<Rightarrow>
                   s\<lparr>corosync_block_event_list := list_del i (corosync_block_event_list s)\<rparr>
               | None \<Rightarrow> s)"
    have f1: "cpg_nodes ?s1 = cpg_nodes s \<and> nr_cpg_nodes ?s1 = nr_cpg_nodes s"
      by (auto split: option.splits)
    show ?thesis
    proof (cases "revoke_mastership left ?s1")
      case (Inl x)
      with Cons.prems None have "revoke_mastership left ?s1 = Inl (why, t)"
        by (auto simp: Let_def)
      from revoke_mastership_fresh(2)[OF this] f1 show ?thesis by simp
    next
      case (Inr s2)
      with Cons.prems None have
        l: "confchg_left_loop rest
                (queue_event ((xzalloc_event (SD_MAX_NODES s2))
                   \<lparr>ev_type := COROSYNC_EVENT_TYPE_LEAVE, ev_sender := left\<rparr>) s2) = Inl (why, t)"
        by (auto simp: Let_def)
      from Cons.IH[OF l] revoke_mastership_roster[OF Inr] f1 show ?thesis
        by (simp add: queue_event_def)
    qed
  qed
qed

lemma confchg_intake_roster_halt:
  assumes "cdrv_cpg_confchg_intake stk ml ll jl s = Inl (why, t)"
  shows "map node_id (cpg_nodes t) = map node_id (cpg_nodes s)
     \<and> nr_cpg_nodes t = nr_cpg_nodes s"
proof (cases "check_network_partition (length ml) (length ll) s")
  case (Inl x)
  with assms have "check_network_partition (length ml) (length ll) s = Inl (why, t)"
    by (auto simp: cdrv_cpg_confchg_intake_def)
  then show ?thesis by (auto simp: check_network_partition_def Let_def split: if_splits)
next
  case (Inr s1)
  have c1: "cpg_nodes s1 = cpg_nodes s \<and> nr_cpg_nodes s1 = nr_cpg_nodes s"
    using Inr by (auto simp: check_network_partition_def Let_def split: if_splits)
  from assms Inr have "t = s1
      \<or> (\<exists>ls. confchg_left_loop (take (length ll) ls) s1 = Inl (why, t))"
    by (auto simp: cdrv_cpg_confchg_intake_def Let_def
        split: sum.splits option.splits if_splits)
  with confchg_left_loop_roster_halt c1 show ?thesis by fastforce
qed

lemma intake_part_distinct:
  assumes "intake_part c s = Inr t \<or> intake_part c s = Inl (why, t)"
  shows "roster_distinct t = roster_distinct s
     \<and> length (cpg_nodes t) = length (cpg_nodes s) \<and> nr_cpg_nodes t = nr_cpg_nodes s"
proof -
  have "map node_id (cpg_nodes t) = map node_id (cpg_nodes s)
     \<and> nr_cpg_nodes t = nr_cpg_nodes s"
    using assms deliver_intake_roster deliver_intake_roster_halt confchg_intake_roster
      confchg_intake_roster_halt
    by (cases c) auto
  with same_ids_distinct[of t s] show ?thesis by simp
qed

lemma dispatch_loop_distinct:
  "roster_distinct s \<Longrightarrow> nr_cpg_nodes s \<le> length (cpg_nodes s) \<Longrightarrow>
   corosync_dispatch_loop_new h s \<Longrightarrow>
   corosync_dispatch_loop h s = Inr t \<or> corosync_dispatch_loop h s = Inl (why, t) \<Longrightarrow>
   roster_distinct t \<and> nr_cpg_nodes t \<le> length (cpg_nodes t)"
proof (induction h s rule: corosync_dispatch_loop.induct)
  case (1 h s)
  show ?case
  proof (cases "corosync_block_event_list s \<noteq> [] \<or> corosync_nonblock_event_list s \<noteq> []")
    case False
    with "1.prems" show ?thesis by (simp add: corosync_dispatch_loop.simps[of h s])
  next
    case True
    have new: "ev_type (first_entry s) = COROSYNC_EVENT_TYPE_JOIN_RESPONSE \<longrightarrow>
        brings_new_node s (first_entry s)"
      using "1.prems"(3) True by (auto simp: corosync_dispatch_loop_new.simps[of h s])
    note pass = dispatch_body_distinct[OF "1.prems"(1,2) new]
    show ?thesis
    proof (cases "corosync_dispatch_body h s")
      case (Halted w u)
      with True "1.prems"(4) have "w = why \<and> u = t"
        by (simp add: corosync_dispatch_loop.simps[of h s])
      with pass[of h t why] Halted show ?thesis by simp
    next
      case (Returned u)
      with True "1.prems"(4) have "u = t"
        by (simp add: corosync_dispatch_loop.simps[of h s])
      with pass[of h t] Returned show ?thesis by simp
    next
      case (Next_iteration u)
      have u: "roster_distinct u \<and> nr_cpg_nodes u \<le> length (cpg_nodes u)"
        using pass[of h u] Next_iteration by simp
      have n: "corosync_dispatch_loop_new h u"
        using "1.prems"(3) True Next_iteration
        by (simp add: corosync_dispatch_loop_new.simps[of h s])
      have l: "corosync_dispatch_loop h u = Inr t \<or> corosync_dispatch_loop h u = Inl (why, t)"
        using "1.prems"(4) True Next_iteration
        by (simp add: corosync_dispatch_loop.simps[of h s])
      from "1.IH"[OF True Next_iteration _ _ n l] u show ?thesis by blast
    qed
  qed
qed

lemma dispatch_distinct:
  assumes "roster_distinct s" and "nr_cpg_nodes s \<le> length (cpg_nodes s)"
    and "corosync_dispatch_new h incoming s"
    and "corosync_dispatch h incoming s = Inr t \<or> corosync_dispatch h incoming s = Inl (why, t)"
  shows "roster_distinct t \<and> nr_cpg_nodes t \<le> length (cpg_nodes t)"
proof (cases incoming)
  case True
  with assms show ?thesis by (auto simp: corosync_dispatch_def)
next
  case False
  let ?s = "s\<lparr>nr_majority := 0\<rparr>"
  have "roster_distinct ?s" "nr_cpg_nodes ?s \<le> length (cpg_nodes ?s)"
    using assms(1,2) by (simp_all add: roster_distinct_def roster_def)
  moreover have "corosync_dispatch_loop_new h ?s"
    using assms(3) False by (simp add: corosync_dispatch_new_def)
  moreover have "corosync_dispatch_loop h ?s = Inr t \<or> corosync_dispatch_loop h ?s = Inl (why, t)"
    using assms(4) False by (simp add: corosync_dispatch_def)
  ultimately show ?thesis by (rule dispatch_loop_distinct)
qed

lemma intake_split:
  "intake h c s = (case intake_part c s of
                     Inl stop \<Rightarrow> Inl stop
                   | Inr s1 \<Rightarrow> corosync_dispatch h (incoming_of c) s1)"
  by (cases c) (auto simp: cdrv_cpg_deliver_def cdrv_cpg_confchg_def split: sum.splits)

lemma run_distinct:
  "roster_distinct s \<Longrightarrow> nr_cpg_nodes s \<le> length (cpg_nodes s) \<Longrightarrow> run_new h calls s \<Longrightarrow>
   run h calls s = Inr t \<or> run h calls s = Inl (why, t) \<Longrightarrow>
   roster_distinct t \<and> nr_cpg_nodes t \<le> length (cpg_nodes t)"
proof (induction calls arbitrary: s)
  case Nil
  then show ?case by simp
next
  case (Cons c calls)
  show ?case
  proof (cases "intake_part c s")
    case (Inl x)
    then have "intake h c s = Inl x" by (simp add: intake_split)
    with Cons.prems(4) have "x = (why, t)" by simp
    with Inl intake_part_distinct[of c s t why] Cons.prems(1,2) show ?thesis by simp
  next
    case (Inr s1)
    have d1: "roster_distinct s1" "nr_cpg_nodes s1 \<le> length (cpg_nodes s1)"
      using intake_part_distinct[of c s s1] Inr Cons.prems(1,2) by simp_all
    have n1: "corosync_dispatch_new h (incoming_of c) s1"
      using Cons.prems(3) Inr by simp
    have i: "intake h c s = corosync_dispatch h (incoming_of c) s1"
      using Inr by (simp add: intake_split)
    show ?thesis
    proof (cases "corosync_dispatch h (incoming_of c) s1")
      case (Inl x)
      with i Cons.prems(4) have "x = (why, t)" by simp
      with Inl dispatch_distinct[OF d1 n1, of t why] show ?thesis by simp
    next
      case (Inr s2)
      have d2: "roster_distinct s2" "nr_cpg_nodes s2 \<le> length (cpg_nodes s2)"
        using dispatch_distinct[OF d1 n1, of s2] Inr by simp_all
      have n2: "run_new h calls s2"
        using Cons.prems(3) \<open>intake_part c s = Inr s1\<close> Inr by simp
      have r: "run h calls s2 = Inr t \<or> run h calls s2 = Inl (why, t)"
        using Cons.prems(4) i Inr by simp
      from Cons.IH[OF d2 n2 r] show ?thesis .
    qed
  qed
qed

subsection \<open>The case labels before the join has finished\<close>

text \<open>
  The \<open>switch\<close> that keeps events queued before the join has finished names
  \<open>COROSYNC_MSG_TYPE_JOIN_REQUEST\<close> and \<open>COROSYNC_MSG_TYPE_BLOCK\<close>, of values 0 and 4.  An
  event type of value 4 is \<open>NOTIFY\<close>, and \<open>BLOCK\<close> has value 3: the pass returns on a
  \<open>NOTIFY\<close> event and deletes a \<open>BLOCK\<close> event.
\<close>

lemma pre_join_case_labels:
  assumes "\<not> join_finished s"
  shows "ev_type (first_entry s) = COROSYNC_EVENT_TYPE_NOTIFY \<Longrightarrow>
           corosync_dispatch_body h s = Returned s"
    and "ev_type (first_entry s) = COROSYNC_EVENT_TYPE_BLOCK \<Longrightarrow>
           corosync_dispatch_body h s = Next_iteration (del_first_entry s)"
  using assms by (simp_all add: corosync_dispatch_body_def update_join_status_def)

section \<open>The partition guard\<close>

text \<open>
  C3.  In a membership-change callback with a non-empty left list, \<open>nr_majority\<close> is armed
  to \<open>(|member| + |left|) / 2 + 1\<close> if it is 0 and \<open>|member| + |left| > 2\<close>; the callback
  then panics exactly when \<open>|member| = 0\<close> or \<open>|member| < nr_majority\<close>.  With two nodes
  and one leaving, \<open>nr_majority\<close> stays 0 and nothing panics; with three nodes and two
  leaving in one callback, the survivor panics.
\<close>

theorem partition_guard:
  assumes "left_list \<noteq> []"
  shows "check_network_partition (length member_list) (length left_list) s =
       (if length member_list = 0
        then Inl (Panic_NIC_failure,
                  s\<lparr>nr_majority := armed_majority (length member_list) (length left_list) s\<rparr>)
        else if length member_list < armed_majority (length member_list) (length left_list) s
        then Inl (Panic_network_partition,
                  s\<lparr>nr_majority := armed_majority (length member_list) (length left_list) s\<rparr>)
        else Inr (s\<lparr>nr_majority := armed_majority (length member_list) (length left_list) s\<rparr>))
     \<and> ((\<exists>why s1. cdrv_cpg_confchg h incoming stack member_list left_list joined_list s
                       = Inl (why, s1) \<and> (why = Panic_NIC_failure \<or> why = Panic_network_partition))
          \<longleftrightarrow> length member_list = 0
              \<or> length member_list < armed_majority (length member_list) (length left_list) s)
     \<and> (nr_majority s = 0 \<and> length member_list = 1 \<and> length left_list = 1 \<longrightarrow>
          check_network_partition (length member_list) (length left_list) s = Inr s)
     \<and> (nr_majority s = 0 \<and> length member_list = 1 \<and> length left_list = 2 \<longrightarrow>
          cdrv_cpg_confchg h incoming stack member_list left_list joined_list s
            = Inl (Panic_network_partition, s\<lparr>nr_majority := 2\<rparr>))"
proof -
  let ?m = "length member_list" and ?l = "length left_list"
  let ?thr = "armed_majority ?m ?l s"
  let ?s1 = "s\<lparr>nr_majority := ?thr\<rparr>"
  have l: "?l \<noteq> 0" using assms by simp
  note eq = check_network_partition_eq[OF l, of ?m s]
  have A: "check_network_partition ?m ?l s =
       (if ?m = 0 then Inl (Panic_NIC_failure, ?s1)
        else if ?m < ?thr then Inl (Panic_network_partition, ?s1) else Inr ?s1)"
    using eq by simp
  have B: "(\<exists>why s1. cdrv_cpg_confchg h incoming stack member_list left_list joined_list s
                       = Inl (why, s1) \<and> (why = Panic_NIC_failure \<or> why = Panic_network_partition))
          \<longleftrightarrow> ?m = 0 \<or> ?m < ?thr"
  proof (cases "?m = 0 \<or> ?m < ?thr")
    case True
    then obtain why where w: "check_network_partition ?m ?l s = Inl (why, ?s1)"
      "why = Panic_NIC_failure \<or> why = Panic_network_partition"
      using A by (cases "?m = 0") auto
    from confchg_check_fails[OF w(1)] w(2) True show ?thesis by blast
  next
    case False
    then have ok: "check_network_partition ?m ?l s = Inr ?s1" using A by simp
    have "\<not> (\<exists>why s1. cdrv_cpg_confchg h incoming stack member_list left_list joined_list s
                       = Inl (why, s1) \<and> (why = Panic_NIC_failure \<or> why = Panic_network_partition))"
      using confchg_after_check[OF ok] by fastforce
    with False show ?thesis by blast
  qed
  have C: "nr_majority s = 0 \<and> ?m = 1 \<and> ?l = 1 \<longrightarrow> check_network_partition ?m ?l s = Inr s"
    by (simp add: check_network_partition_def)
  have D: "nr_majority s = 0 \<and> ?m = 1 \<and> ?l = 2 \<longrightarrow>
          cdrv_cpg_confchg h incoming stack member_list left_list joined_list s
            = Inl (Panic_network_partition, s\<lparr>nr_majority := 2\<rparr>)"
  proof (intro impI)
    assume a: "nr_majority s = 0 \<and> ?m = 1 \<and> ?l = 2"
    then have "check_network_partition ?m ?l s = Inl (Panic_network_partition, s\<lparr>nr_majority := 2\<rparr>)"
      by (simp add: check_network_partition_def)
    from confchg_check_fails[OF this] show "cdrv_cpg_confchg h incoming stack member_list left_list joined_list s
            = Inl (Panic_network_partition, s\<lparr>nr_majority := 2\<rparr>)" .
  qed
  show ?thesis using A B C D by blast
qed


text \<open>Three nodes, two of them leaving at once, and two nodes, one of them leaving.\<close>

theorem partition_guard_witness:
  "[addr_of nodeB, addr_of nodeC] \<noteq> []
   \<and> cdrv_cpg_confchg host_accepting False example_stack
        [addr_of nodeA] [addr_of nodeB, addr_of nodeC] [] (driver_init nodeA 4)
      = Inl (Panic_network_partition, (driver_init nodeA 4)\<lparr>nr_majority := 2\<rparr>)
   \<and> check_network_partition (length [addr_of nodeA]) (length [addr_of nodeB])
        (driver_init nodeA 4) = Inr (driver_init nodeA 4)"
proof -
  have three: "[addr_of nodeB, addr_of nodeC] \<noteq> []" by simp
  have two: "[addr_of nodeB] \<noteq> []" by simp
  have zero: "nr_majority (driver_init nodeA 4) = 0" by (simp add: driver_init_def)
  have one_left: "length [addr_of nodeA] = 1 \<and> length [addr_of nodeB] = 1" by simp
  have two_left: "length [addr_of nodeA] = 1 \<and> length [addr_of nodeB, addr_of nodeC] = 2"
    by simp
  have survivor: "cdrv_cpg_confchg host_accepting False example_stack
        [addr_of nodeA] [addr_of nodeB, addr_of nodeC] [] (driver_init nodeA 4)
      = Inl (Panic_network_partition, (driver_init nodeA 4)\<lparr>nr_majority := 2\<rparr>)"
    using zero two_left
      partition_guard [OF three, of "[addr_of nodeA]" "driver_init nodeA 4" host_accepting
        False example_stack "[]"]
    by blast
  have pair: "check_network_partition (length [addr_of nodeA]) (length [addr_of nodeB])
        (driver_init nodeA 4) = Inr (driver_init nodeA 4)"
    using zero one_left
      partition_guard [OF two, of "[addr_of nodeA]" "driver_init nodeA 4" host_accepting
        False example_stack "[]"]
    by blast
  show ?thesis using three survivor pair by blast
qed

section \<open>Master of the roster\<close>

text \<open>
  C4.  \<open>is_master(node)\<close> is to return the index of \<open>node\<close> if it is the first roster entry
  whose \<open>gone\<close> flag is false, and a negative result otherwise.  The scan of \<open>is_master\<close>
  runs over all \<open>SD_MAX_NODES\<close> slots instead of the \<open>nr_cpg_nodes\<close> roster entries: after
  the run \<open>stale_run\<close> the roster of node B is the tombstoned entry of B alone, slot 1 still
  holds the copy of B that \<open>memmove\<close> left behind, and \<open>is_master\<close> returns 1 for B.
\<close>

theorem is_master_reads_stale_slot:
  "\<not> isl (run host_accepting stale_run (driver_init nodeB 4))
   \<and> nr_cpg_nodes (outcome_state (run host_accepting stale_run (driver_init nodeB 4))) = 1
   \<and> roster (outcome_state (run host_accepting stale_run (driver_init nodeB 4)))
       = [nodeB\<lparr>gone := 1\<rparr>]
   \<and> cpg_nodes (outcome_state (run host_accepting stale_run (driver_init nodeB 4))) ! 1 = nodeB
   \<and> is_master (outcome_state (run host_accepting stale_run (driver_init nodeB 4)))
        (Some nodeB) = 1"
  by code_simp

section \<open>Deleting from the roster\<close>

text \<open>
  C5.  When a \<open>LEAVE\<close> event is processed and the roster of length \<open>n > 0\<close> has its first
  entry with the sender's node id at index \<open>idx\<close>, every later entry moves down by one
  slot (entry \<open>i + 1\<close> to slot \<open>i\<close> for \<open>idx \<le> i \<le> n - 2\<close>), the entries before \<open>idx\<close> stay,
  so the order of the remaining entries is kept without a hole, and the roster has length
  \<open>n - 1\<close>.
\<close>

theorem leave_deletes_entry:
  assumes "ev_type cevent = COROSYNC_EVENT_TYPE_LEAVE"
    and "nr_cpg_nodes s \<le> SD_MAX_NODES s"
    and "idx < nr_cpg_nodes s"
    and "cpg_node_equal (cpg_nodes s ! idx) (ev_sender cevent)"
    and "\<forall>j<idx. \<not> cpg_node_equal (cpg_nodes s ! j) (ev_sender cevent)"
  shows "\<exists>cevent1 s1. corosync_dispatch_one h cevent s = Inr (True, cevent1, s1)
     \<and> nr_cpg_nodes s1 = nr_cpg_nodes s - 1
     \<and> (\<forall>i. idx \<le> i \<and> i < nr_cpg_nodes s - 1 \<longrightarrow> cpg_nodes s1 ! i = cpg_nodes s ! (i + 1))
     \<and> (\<forall>i<idx. cpg_nodes s1 ! i = cpg_nodes s ! i)
     \<and> roster s1 = take idx (roster s) @ drop (Suc idx) (roster s)
     \<and> length (roster s1) = length (roster s) - 1"
proof -
  let ?nr = "nr_cpg_nodes s" and ?nodes = "cpg_nodes s"
  have len: "?nr \<le> length ?nodes" using assms(2) by (simp add: SD_MAX_NODES_def)
  let ?cevent1 = "cevent\<lparr>ev_sender := (ev_sender cevent)\<lparr>ent := ent (?nodes ! idx)\<rparr>\<rparr>"
  have f: "find_cpg_node ?nodes ?nr (ev_sender cevent) = int idx"
    unfolding find_cpg_node_def
    using find_cpg_node_loop_first[of idx "take ?nr ?nodes" "ev_sender cevent" 0] assms(3-5) len
    by simp
  have f1: "find_cpg_node ?nodes ?nr (ev_sender ?cevent1) = int idx"
    using f by (simp add: find_cpg_node_def find_cpg_node_loop_ent)
  let ?nodes1 = "memmove_nodes ?nodes idx (idx + 1) ((?nr - 1) - idx)"
  let ?s1 = "call_leave_handler ?cevent1 (s\<lparr>cpg_nodes := ?nodes1, nr_cpg_nodes := ?nr - 1\<rparr>)"
  have d: "del_cpg_node ?nodes ?nr (ev_sender ?cevent1) = ?nodes1"
    using f1 by (simp add: del_cpg_node_def)
  have one: "corosync_dispatch_one h cevent s = Inr (True, ?cevent1, ?s1)"
    using assms(1) f d by (simp add: corosync_dispatch_one_def Let_def)
  have r: "roster ?s1 = take idx (roster s) @ drop (Suc idx) (roster s)"
    using take_memmove_nodes[OF assms(3) len] by (simp add: roster_def call_leave_handler_def)
  have l: "length (roster ?s1) = length (roster s) - 1"
    unfolding r using assms(3) len by (simp add: roster_def)
  have m: "\<forall>i. idx \<le> i \<and> i < ?nr - 1 \<longrightarrow> cpg_nodes ?s1 ! i = ?nodes ! (i + 1)"
    using nth_memmove_nodes_moved[OF assms(3) len] by (simp add: call_leave_handler_def)
  have b: "\<forall>i<idx. cpg_nodes ?s1 ! i = ?nodes ! i"
    using nth_memmove_nodes_before[OF assms(3) len] by (simp add: call_leave_handler_def)
  have n: "nr_cpg_nodes ?s1 = ?nr - 1" by (simp add: call_leave_handler_def)
  show ?thesis using one r l m b n by blast
qed

text \<open>B leaves the roster A, B, C.\<close>

theorem leave_deletes_entry_witness:
  "\<exists>cevent1 s1.
     corosync_dispatch_one host_accepting leave_B
       (example_driver [nodeA, nodeB, nodeC] 3 [] [leave_B] True) = Inr (True, cevent1, s1)
     \<and> nr_cpg_nodes s1 = 2 \<and> roster s1 = [nodeA, nodeC]"
proof -
  let ?s = "example_driver [nodeA, nodeB, nodeC] 3 [] [leave_B] True"
  have h1: "ev_type leave_B = COROSYNC_EVENT_TYPE_LEAVE" by code_simp
  have h2: "nr_cpg_nodes ?s \<le> SD_MAX_NODES ?s" by code_simp
  have h3: "(1::nat) < nr_cpg_nodes ?s" by code_simp
  have h4: "cpg_node_equal (cpg_nodes ?s ! 1) (ev_sender leave_B)" by code_simp
  have h5: "\<forall>j<(1::nat). \<not> cpg_node_equal (cpg_nodes ?s ! j) (ev_sender leave_B)"
    by (simp add: example_driver_def leave_B_def example_event_def cpg_node_equal_def
          nodeA_def nodeB_def)
  have n: "nr_cpg_nodes ?s - 1 = 2" by code_simp
  have r: "take 1 (roster ?s) @ drop (Suc 1) (roster ?s) = [nodeA, nodeC]" by code_simp
  from leave_deletes_entry [OF h1 h2 h3 h4 h5, of host_accepting]
  obtain cevent1 s1 where
    "corosync_dispatch_one host_accepting leave_B ?s = Inr (True, cevent1, s1)"
    "nr_cpg_nodes s1 = nr_cpg_nodes ?s - 1"
    "roster s1 = take 1 (roster ?s) @ drop (Suc 1) (roster ?s)"
    by blast
  then show ?thesis unfolding n r by blast
qed

section \<open>Processing a join response\<close>

text \<open>
  C6.  When the dispatcher processes a \<open>JOIN_RESPONSE\<close> event, the sender is appended to
  the roster (whose length grows by 1) if the result is \<open>SUCCESS\<close>, \<open>MASTER_TRANSFER\<close> or
  \<open>JOIN_LATER\<close>, and the roster is unchanged if it is \<open>FAIL\<close>; in all four cases
  \<open>sd_join_handler\<close> is called once, with the sender, the roster as it is then, the result
  and the payload, and the event is removed from its list.  (Appending needs a free slot
  in the array of \<open>SD_MAX_NODES\<close> entries.)
\<close>

theorem join_response_processed:
  assumes "ev_type cevent = COROSYNC_EVENT_TYPE_JOIN_RESPONSE"
    and "ev_result cevent \<noteq> CJ_RES_FAIL \<longrightarrow> nr_cpg_nodes s < SD_MAX_NODES s"
  shows "\<exists>s1. corosync_dispatch_one h cevent s = Inr (True, cevent, s1)
     \<and> roster s1 = (if ev_result cevent = CJ_RES_FAIL then roster s
                     else roster s @ [ev_sender cevent])
     \<and> nr_cpg_nodes s1 = (if ev_result cevent = CJ_RES_FAIL then nr_cpg_nodes s
                           else nr_cpg_nodes s + 1)
     \<and> upcalls s1 = upcalls s @
           [Sd_join_handler (ent (ev_sender cevent)) (map ent (roster s1)) (nr_cpg_nodes s1)
              (ev_result cevent) (ev_msg cevent)]
     \<and> (join_finished s \<and> first_entry s = cevent \<longrightarrow>
          corosync_dispatch_body h s = Next_iteration (del_first_entry s1))"
proof (cases "ev_result cevent = CJ_RES_FAIL")
  case True
  let ?s1 = "call_join_handler cevent s"
  have one: "corosync_dispatch_one h cevent s = Inr (True, cevent, ?s1)"
    using assms(1) True by (simp add: corosync_dispatch_one_def)
  have "update_join_status cevent s = Inr s" if "join_finished s"
    using that by (simp add: update_join_status_def)
  then have body: "join_finished s \<and> first_entry s = cevent \<longrightarrow>
      corosync_dispatch_body h s = Next_iteration (del_first_entry ?s1)"
    using one by (simp add: corosync_dispatch_body_def call_join_handler_def)
  show ?thesis
    using one body True
    by (intro exI[of _ ?s1]) (simp add: call_join_handler_def roster_def build_node_list_def)
next
  case False
  then have room: "nr_cpg_nodes s < length (cpg_nodes s)"
    using assms(2) by (simp add: SD_MAX_NODES_def)
  let ?s0 = "s\<lparr>cpg_nodes := (cpg_nodes s)[nr_cpg_nodes s := ev_sender cevent],
               nr_cpg_nodes := nr_cpg_nodes s + 1\<rparr>"
  let ?s1 = "call_join_handler cevent ?s0"
  have one: "corosync_dispatch_one h cevent s = Inr (True, cevent, ?s1)"
    using assms(1) False room
    by (cases "ev_result cevent") (simp_all add: corosync_dispatch_one_def add_cpg_node_def)
  have "update_join_status cevent s = Inr s" if "join_finished s"
    using that by (simp add: update_join_status_def)
  then have body: "join_finished s \<and> first_entry s = cevent \<longrightarrow>
      corosync_dispatch_body h s = Next_iteration (del_first_entry ?s1)"
    using one by (simp add: corosync_dispatch_body_def call_join_handler_def)
  have r: "roster ?s1 = roster s @ [ev_sender cevent]"
    using room take_add_cpg_node[OF room] by (simp add: roster_def call_join_handler_def)
  show ?thesis
    using one body False r
    by (intro exI[of _ ?s1]) (simp add: call_join_handler_def roster_def build_node_list_def)
qed

text \<open>The response that lets B join the roster of A.\<close>

theorem join_response_processed_witness:
  "\<exists>s1. corosync_dispatch_one host_accepting response_B
           (example_driver [nodeA] 1 [] [response_B] True) = Inr (True, response_B, s1)
     \<and> roster s1 = [nodeA, nodeB] \<and> nr_cpg_nodes s1 = 2
     \<and> upcalls s1 = [Sd_join_handler 22 [11, 22] 2 CJ_RES_SUCCESS None]
     \<and> corosync_dispatch_body host_accepting (example_driver [nodeA] 1 [] [response_B] True)
         = Next_iteration (del_first_entry s1)"
proof -
  let ?s = "example_driver [nodeA] 1 [] [response_B] True"
  have h1: "ev_type response_B = COROSYNC_EVENT_TYPE_JOIN_RESPONSE" by code_simp
  have h2: "ev_result response_B \<noteq> CJ_RES_FAIL \<longrightarrow> nr_cpg_nodes ?s < SD_MAX_NODES ?s"
    by code_simp
  have res: "ev_result response_B = CJ_RES_SUCCESS" by code_simp
  have r: "roster ?s @ [ev_sender response_B] = [nodeA, nodeB]" by code_simp
  have n: "nr_cpg_nodes ?s + 1 = 2" by code_simp
  have u: "upcalls ?s = []" by code_simp
  have m: "ev_msg response_B = None" by code_simp
  have e: "ent (ev_sender response_B) = 22" "map ent [nodeA, nodeB] = [11, 22]" by code_simp+
  have j: "join_finished ?s \<and> first_entry ?s = response_B" by code_simp
  from join_response_processed [OF h1 h2, of host_accepting]
  obtain s1 where o:
    "corosync_dispatch_one host_accepting response_B ?s = Inr (True, response_B, s1)"
    "roster s1 = (if ev_result response_B = CJ_RES_FAIL then roster ?s
                  else roster ?s @ [ev_sender response_B])"
    "nr_cpg_nodes s1 = (if ev_result response_B = CJ_RES_FAIL then nr_cpg_nodes ?s
                        else nr_cpg_nodes ?s + 1)"
    "upcalls s1 = upcalls ?s @
           [Sd_join_handler (ent (ev_sender response_B)) (map ent (roster s1)) (nr_cpg_nodes s1)
              (ev_result response_B) (ev_msg response_B)]"
    "join_finished ?s \<and> first_entry ?s = response_B \<longrightarrow>
          corosync_dispatch_body host_accepting ?s = Next_iteration (del_first_entry s1)"
    by blast
  have a: "roster s1 = [nodeA, nodeB]" using o(2) res r by simp
  have b: "nr_cpg_nodes s1 = 2" using o(3) res n by simp
  have c: "upcalls s1 = [Sd_join_handler 22 [11, 22] 2 CJ_RES_SUCCESS None]"
    unfolding o(4) a b u m e res by simp
  have d: "corosync_dispatch_body host_accepting ?s = Next_iteration (del_first_entry s1)"
    using o(5) j by blast
  show ?thesis using o(1) a b c d by blast
qed

section \<open>The drain loop\<close>

text \<open>
  C9.  In every pass of the drain loop the event taken is the head of the non-block list
  if that list is not empty, and the head of the block list only if the non-block list is
  empty.  The pass is the work on that event: the join status is updated for it, it is
  the event handed to \<open>__corosync_dispatch_one\<close>, and it is the event that is written
  back to, or deleted from, the head of its list, while the rest of the two lists stays
  as it is.
\<close>

theorem drain_takes_nonblock_first:
  "(corosync_nonblock_event_list s = e # q \<longrightarrow>
      first_entry s = e
      \<and> corosync_dispatch_body h s =
          (case update_join_status e s of
             Inl (why, s1) \<Rightarrow> Halted why s1
           | Inr s1 \<Rightarrow>
               if join_finished s1 then
                 (case corosync_dispatch_one h e s1 of
                    Inl (why, s2) \<Rightarrow> Halted why s2
                  | Inr (processed, e1, s2) \<Rightarrow>
                      if processed
                      then Next_iteration (s2\<lparr>corosync_nonblock_event_list := q\<rparr>)
                      else Returned (s2\<lparr>corosync_nonblock_event_list := e1 # q\<rparr>))
               else if event_type_val (ev_type e)
                         = message_type_val COROSYNC_MSG_TYPE_JOIN_REQUEST
                       \<or> event_type_val (ev_type e) = message_type_val COROSYNC_MSG_TYPE_BLOCK
               then Returned s1
               else Next_iteration (s1\<lparr>corosync_nonblock_event_list := q\<rparr>))
      \<and> (\<forall>s1. corosync_dispatch_body h s = Next_iteration s1 \<longrightarrow>
            corosync_nonblock_event_list s1 = q
            \<and> corosync_block_event_list s1 = corosync_block_event_list s)
      \<and> (\<forall>s1. corosync_dispatch_body h s = Returned s1 \<longrightarrow>
            (\<exists>e1. corosync_nonblock_event_list s1 = e1 # q)
            \<and> corosync_block_event_list s1 = corosync_block_event_list s))
   \<and> (corosync_nonblock_event_list s = [] \<and> corosync_block_event_list s = e # q \<longrightarrow>
      first_entry s = e
      \<and> corosync_dispatch_body h s =
          (case update_join_status e s of
             Inl (why, s1) \<Rightarrow> Halted why s1
           | Inr s1 \<Rightarrow>
               if join_finished s1 then
                 (case corosync_dispatch_one h e s1 of
                    Inl (why, s2) \<Rightarrow> Halted why s2
                  | Inr (processed, e1, s2) \<Rightarrow>
                      if processed
                      then Next_iteration (s2\<lparr>corosync_block_event_list := q\<rparr>)
                      else Returned (s2\<lparr>corosync_block_event_list := e1 # q\<rparr>))
               else if event_type_val (ev_type e)
                         = message_type_val COROSYNC_MSG_TYPE_JOIN_REQUEST
                       \<or> event_type_val (ev_type e) = message_type_val COROSYNC_MSG_TYPE_BLOCK
               then Returned s1
               else Next_iteration (s1\<lparr>corosync_block_event_list := q\<rparr>))
      \<and> (\<forall>s1. corosync_dispatch_body h s = Next_iteration s1 \<longrightarrow>
            corosync_block_event_list s1 = q \<and> corosync_nonblock_event_list s1 = [])
      \<and> (\<forall>s1. corosync_dispatch_body h s = Returned s1 \<longrightarrow>
            (\<exists>e1. corosync_block_event_list s1 = e1 # q)
            \<and> corosync_nonblock_event_list s1 = []))"
proof -
  have pass: "corosync_dispatch_body h s =
      (case update_join_status e s of
         Inl (why, s1) \<Rightarrow> Halted why s1
       | Inr s1 \<Rightarrow>
           if join_finished s1 then
             (case corosync_dispatch_one h e s1 of
                Inl (why, s2) \<Rightarrow> Halted why s2
              | Inr (processed, e1, s2) \<Rightarrow>
                  if processed then Next_iteration (del_first_entry s2)
                  else Returned (store_first_entry e1 s2))
           else if event_type_val (ev_type e) = message_type_val COROSYNC_MSG_TYPE_JOIN_REQUEST
                   \<or> event_type_val (ev_type e) = message_type_val COROSYNC_MSG_TYPE_BLOCK
           then Returned s1
           else Next_iteration (del_first_entry s1))"
    if "first_entry s = e"
    using that
    by (auto simp: corosync_dispatch_body_def Let_def split: sum.splits prod.splits)
  have lists: "corosync_block_event_list s2 = corosync_block_event_list s
       \<and> corosync_nonblock_event_list s2 = corosync_nonblock_event_list s"
    if "update_join_status e s = Inr s1" "corosync_dispatch_one h e s1 = Inr (p, e1, s2)"
    for s1 p e1 s2
    using update_join_status_lists[OF that(1)] dispatch_one_lists[OF that(2)] by simp
  have nonblock: "corosync_dispatch_body h s =
          (case update_join_status e s of
             Inl (why, s1) \<Rightarrow> Halted why s1
           | Inr s1 \<Rightarrow>
               if join_finished s1 then
                 (case corosync_dispatch_one h e s1 of
                    Inl (why, s2) \<Rightarrow> Halted why s2
                  | Inr (processed, e1, s2) \<Rightarrow>
                      if processed
                      then Next_iteration (s2\<lparr>corosync_nonblock_event_list := q\<rparr>)
                      else Returned (s2\<lparr>corosync_nonblock_event_list := e1 # q\<rparr>))
               else if event_type_val (ev_type e)
                         = message_type_val COROSYNC_MSG_TYPE_JOIN_REQUEST
                       \<or> event_type_val (ev_type e) = message_type_val COROSYNC_MSG_TYPE_BLOCK
               then Returned s1
               else Next_iteration (s1\<lparr>corosync_nonblock_event_list := q\<rparr>))"
    if n: "corosync_nonblock_event_list s = e # q"
  proof -
    have f: "first_entry s = e" using n by (simp add: first_entry_def)
    show ?thesis
    proof (cases "update_join_status e s")
      case (Inl x)
      then show ?thesis unfolding pass[OF f] by simp
    next
      case (Inr s1)
      have l1: "corosync_block_event_list s1 = corosync_block_event_list s
          \<and> corosync_nonblock_event_list s1 = corosync_nonblock_event_list s"
        using update_join_status_lists[OF Inr] .
      show ?thesis
      proof (cases "corosync_dispatch_one h e s1")
        case (Inl y)
        with Inr l1 n show ?thesis
          unfolding pass[OF f] by (simp add: del_first_entry_def)
      next
        case one: (Inr y)
        obtain p e1 s2 where y: "y = (p, e1, s2)" by (cases y)
        have l2: "corosync_block_event_list s2 = corosync_block_event_list s
            \<and> corosync_nonblock_event_list s2 = corosync_nonblock_event_list s"
          using lists[OF Inr one[unfolded y]] .
        from Inr one y l1 l2 n show ?thesis
          unfolding pass[OF f]
          by (simp add: del_first_entry_def store_first_entry_def)
      qed
    qed
  qed
  have block: "corosync_dispatch_body h s =
          (case update_join_status e s of
             Inl (why, s1) \<Rightarrow> Halted why s1
           | Inr s1 \<Rightarrow>
               if join_finished s1 then
                 (case corosync_dispatch_one h e s1 of
                    Inl (why, s2) \<Rightarrow> Halted why s2
                  | Inr (processed, e1, s2) \<Rightarrow>
                      if processed
                      then Next_iteration (s2\<lparr>corosync_block_event_list := q\<rparr>)
                      else Returned (s2\<lparr>corosync_block_event_list := e1 # q\<rparr>))
               else if event_type_val (ev_type e)
                         = message_type_val COROSYNC_MSG_TYPE_JOIN_REQUEST
                       \<or> event_type_val (ev_type e) = message_type_val COROSYNC_MSG_TYPE_BLOCK
               then Returned s1
               else Next_iteration (s1\<lparr>corosync_block_event_list := q\<rparr>))"
    if n: "corosync_nonblock_event_list s = [] \<and> corosync_block_event_list s = e # q"
  proof -
    have f: "first_entry s = e" using n by (simp add: first_entry_def)
    show ?thesis
    proof (cases "update_join_status e s")
      case (Inl x)
      then show ?thesis unfolding pass[OF f] by simp
    next
      case (Inr s1)
      have l1: "corosync_block_event_list s1 = corosync_block_event_list s
          \<and> corosync_nonblock_event_list s1 = corosync_nonblock_event_list s"
        using update_join_status_lists[OF Inr] .
      show ?thesis
      proof (cases "corosync_dispatch_one h e s1")
        case (Inl y)
        with Inr l1 n show ?thesis
          unfolding pass[OF f] by (simp add: del_first_entry_def)
      next
        case one: (Inr y)
        obtain p e1 s2 where y: "y = (p, e1, s2)" by (cases y)
        have l2: "corosync_block_event_list s2 = corosync_block_event_list s
            \<and> corosync_nonblock_event_list s2 = corosync_nonblock_event_list s"
          using lists[OF Inr one[unfolded y]] .
        from Inr one y l1 l2 n show ?thesis
          unfolding pass[OF f]
          by (simp add: del_first_entry_def store_first_entry_def)
      qed
    qed
  qed
  have frame: "(corosync_nonblock_event_list s = e # q \<longrightarrow>
      first_entry s = e
      \<and> (\<forall>s1. corosync_dispatch_body h s = Next_iteration s1 \<longrightarrow>
            corosync_nonblock_event_list s1 = q
            \<and> corosync_block_event_list s1 = corosync_block_event_list s)
      \<and> (\<forall>s1. corosync_dispatch_body h s = Returned s1 \<longrightarrow>
            (\<exists>e1. corosync_nonblock_event_list s1 = e1 # q)
            \<and> corosync_block_event_list s1 = corosync_block_event_list s))
   \<and> (corosync_nonblock_event_list s = [] \<and> corosync_block_event_list s = e # q \<longrightarrow>
      first_entry s = e
      \<and> (\<forall>s1. corosync_dispatch_body h s = Next_iteration s1 \<longrightarrow>
            corosync_block_event_list s1 = q \<and> corosync_nonblock_event_list s1 = [])
      \<and> (\<forall>s1. corosync_dispatch_body h s = Returned s1 \<longrightarrow>
            (\<exists>e1. corosync_block_event_list s1 = e1 # q)
            \<and> corosync_nonblock_event_list s1 = []))"
    by (auto simp: first_entry_def corosync_dispatch_body_def Let_def del_first_entry_def
          store_first_entry_def
        split: sum.splits prod.splits if_splits
        dest!: dispatch_one_lists update_join_status_lists)
  show ?thesis using nonblock block frame by blast
qed

text \<open>
  A notify of A goes before the block of B that was queued in the other list; with the
  non-block list empty, the pass calls \<open>sd_block_handler\<close> for the block of B.
\<close>

theorem drain_takes_nonblock_first_witness:
  "corosync_nonblock_event_list (example_driver [nodeA] 1 [block_B] [notify_A] True)
     = notify_A # []
   \<and> first_entry (example_driver [nodeA] 1 [block_B] [notify_A] True) = notify_A
   \<and> corosync_dispatch_body host_accepting (example_driver [nodeA] 1 [block_B] [notify_A] True)
       = Next_iteration ((example_driver [nodeA] 1 [block_B] [] True)
                           \<lparr>upcalls := [Sd_notify_handler 11 None 0]\<rparr>)
   \<and> corosync_nonblock_event_list (example_driver [nodeA] 1 [block_B] [] True) = []
   \<and> corosync_block_event_list (example_driver [nodeA] 1 [block_B] [] True) = block_B # []
   \<and> first_entry (example_driver [nodeA] 1 [block_B] [] True) = block_B
   \<and> corosync_dispatch_body host_accepting (example_driver [nodeA] 1 [block_B] [] True)
       = Returned ((example_driver [nodeA] 1 [block_B\<lparr>ev_callbacked := True\<rparr>] [] True)
                     \<lparr>upcalls := [Sd_block_handler 22]\<rparr>)"
proof -
  have first: "corosync_nonblock_event_list (example_driver [nodeA] 1 [block_B] [notify_A] True)
       = notify_A # []
     \<and> first_entry (example_driver [nodeA] 1 [block_B] [notify_A] True) = notify_A
     \<and> corosync_dispatch_body host_accepting
         (example_driver [nodeA] 1 [block_B] [notify_A] True)
       = Next_iteration ((example_driver [nodeA] 1 [block_B] [] True)
                           \<lparr>upcalls := [Sd_notify_handler 11 None 0]\<rparr>)"
  proof -
    let ?s = "example_driver [nodeA] 1 [block_B] [notify_A] True"
    have h: "corosync_nonblock_event_list ?s = notify_A # []"
      by (simp add: example_driver_def)
    have eq: "first_entry ?s = notify_A \<and> corosync_dispatch_body host_accepting ?s =
         (case update_join_status notify_A ?s of
             Inl (why, s1) \<Rightarrow> Halted why s1
           | Inr s1 \<Rightarrow>
               if join_finished s1 then
                 (case corosync_dispatch_one host_accepting notify_A s1 of
                    Inl (why, s2) \<Rightarrow> Halted why s2
                  | Inr (processed, e1, s2) \<Rightarrow>
                      if processed
                      then Next_iteration (s2\<lparr>corosync_nonblock_event_list := []\<rparr>)
                      else Returned (s2\<lparr>corosync_nonblock_event_list := e1 # []\<rparr>))
               else if event_type_val (ev_type notify_A)
                         = message_type_val COROSYNC_MSG_TYPE_JOIN_REQUEST
                       \<or> event_type_val (ev_type notify_A) = message_type_val COROSYNC_MSG_TYPE_BLOCK
               then Returned s1
               else Next_iteration (s1\<lparr>corosync_nonblock_event_list := []\<rparr>))"
      using h drain_takes_nonblock_first [of ?s notify_A "[]" host_accepting] by blast
    have val: "(case update_join_status notify_A ?s of
             Inl (why, s1) \<Rightarrow> Halted why s1
           | Inr s1 \<Rightarrow>
               if join_finished s1 then
                 (case corosync_dispatch_one host_accepting notify_A s1 of
                    Inl (why, s2) \<Rightarrow> Halted why s2
                  | Inr (processed, e1, s2) \<Rightarrow>
                      if processed
                      then Next_iteration (s2\<lparr>corosync_nonblock_event_list := []\<rparr>)
                      else Returned (s2\<lparr>corosync_nonblock_event_list := e1 # []\<rparr>))
               else if event_type_val (ev_type notify_A)
                         = message_type_val COROSYNC_MSG_TYPE_JOIN_REQUEST
                       \<or> event_type_val (ev_type notify_A) = message_type_val COROSYNC_MSG_TYPE_BLOCK
               then Returned s1
               else Next_iteration (s1\<lparr>corosync_nonblock_event_list := []\<rparr>))
        = Next_iteration ((example_driver [nodeA] 1 [block_B] [] True)
                           \<lparr>upcalls := [Sd_notify_handler 11 None 0]\<rparr>)"
      by code_simp
    show ?thesis using h eq val by simp
  qed
  have second: "corosync_nonblock_event_list (example_driver [nodeA] 1 [block_B] [] True) = []
     \<and> corosync_block_event_list (example_driver [nodeA] 1 [block_B] [] True) = block_B # []
     \<and> first_entry (example_driver [nodeA] 1 [block_B] [] True) = block_B
     \<and> corosync_dispatch_body host_accepting (example_driver [nodeA] 1 [block_B] [] True)
       = Returned ((example_driver [nodeA] 1 [block_B\<lparr>ev_callbacked := True\<rparr>] [] True)
                     \<lparr>upcalls := [Sd_block_handler 22]\<rparr>)"
  proof -
    let ?s = "example_driver [nodeA] 1 [block_B] [] True"
    have h: "corosync_nonblock_event_list ?s = [] \<and> corosync_block_event_list ?s = block_B # []"
      by (simp add: example_driver_def)
    have eq: "first_entry ?s = block_B \<and> corosync_dispatch_body host_accepting ?s =
         (case update_join_status block_B ?s of
             Inl (why, s1) \<Rightarrow> Halted why s1
           | Inr s1 \<Rightarrow>
               if join_finished s1 then
                 (case corosync_dispatch_one host_accepting block_B s1 of
                    Inl (why, s2) \<Rightarrow> Halted why s2
                  | Inr (processed, e1, s2) \<Rightarrow>
                      if processed
                      then Next_iteration (s2\<lparr>corosync_block_event_list := []\<rparr>)
                      else Returned (s2\<lparr>corosync_block_event_list := e1 # []\<rparr>))
               else if event_type_val (ev_type block_B)
                         = message_type_val COROSYNC_MSG_TYPE_JOIN_REQUEST
                       \<or> event_type_val (ev_type block_B) = message_type_val COROSYNC_MSG_TYPE_BLOCK
               then Returned s1
               else Next_iteration (s1\<lparr>corosync_block_event_list := []\<rparr>))"
      using h drain_takes_nonblock_first [of ?s block_B "[]" host_accepting] by blast
    have val: "(case update_join_status block_B ?s of
             Inl (why, s1) \<Rightarrow> Halted why s1
           | Inr s1 \<Rightarrow>
               if join_finished s1 then
                 (case corosync_dispatch_one host_accepting block_B s1 of
                    Inl (why, s2) \<Rightarrow> Halted why s2
                  | Inr (processed, e1, s2) \<Rightarrow>
                      if processed
                      then Next_iteration (s2\<lparr>corosync_block_event_list := []\<rparr>)
                      else Returned (s2\<lparr>corosync_block_event_list := e1 # []\<rparr>))
               else if event_type_val (ev_type block_B)
                         = message_type_val COROSYNC_MSG_TYPE_JOIN_REQUEST
                       \<or> event_type_val (ev_type block_B) = message_type_val COROSYNC_MSG_TYPE_BLOCK
               then Returned s1
               else Next_iteration (s1\<lparr>corosync_block_event_list := []\<rparr>))
        = Returned ((example_driver [nodeA] 1 [block_B\<lparr>ev_callbacked := True\<rparr>] [] True)
                     \<lparr>upcalls := [Sd_block_handler 22]\<rparr>)"
      by code_simp
    show ?thesis using h eq val by simp
  qed
  show ?thesis using first second by blast
qed

section \<open>A leave of a node that is not in the roster\<close>

text \<open>
  C10.  When the dispatcher comes to a \<open>LEAVE\<close> event whose sender has no entry of equal
  node id in the roster, the event is removed, \<open>sd_leave_handler\<close> is not called, and the
  roster, entries and length, is unchanged.
\<close>

theorem leave_of_unknown_sender:
  assumes "corosync_block_event_list s \<noteq> [] \<or> corosync_nonblock_event_list s \<noteq> []"
    and "first_entry s = cevent"
    and "ev_type cevent = COROSYNC_EVENT_TYPE_LEAVE"
    and "\<forall>n\<in>set (roster s). \<not> cpg_node_equal n (ev_sender cevent)"
  shows "corosync_dispatch_one h cevent s = Inr (True, cevent, s)
     \<and> corosync_dispatch_body h s = Next_iteration (del_first_entry s)
     \<and> upcalls (del_first_entry s) = upcalls s
     \<and> cpg_nodes (del_first_entry s) = cpg_nodes s
     \<and> nr_cpg_nodes (del_first_entry s) = nr_cpg_nodes s
     \<and> nr_events (del_first_entry s) = nr_events s - 1"
proof -
  have f: "find_cpg_node (cpg_nodes s) (nr_cpg_nodes s) (ev_sender cevent) < 0"
    using assms(4) by (simp add: find_cpg_node_def find_cpg_node_loop_negative roster_def)
  have one: "corosync_dispatch_one h cevent s = Inr (True, cevent, s)"
    using f assms(3) by (simp add: corosync_dispatch_one_def)
  have st: "update_join_status cevent s = Inr s"
    using assms(3) by (simp add: update_join_status_def)
  have body: "corosync_dispatch_body h s = Next_iteration (del_first_entry s)"
    using one st assms(2,3) by (simp add: corosync_dispatch_body_def)
  have rest: "upcalls (del_first_entry s) = upcalls s
     \<and> cpg_nodes (del_first_entry s) = cpg_nodes s
     \<and> nr_cpg_nodes (del_first_entry s) = nr_cpg_nodes s
     \<and> nr_events (del_first_entry s) = nr_events s - 1"
    using assms(1)
    by (cases "corosync_nonblock_event_list s"; cases "corosync_block_event_list s")
       (simp_all add: del_first_entry_def nr_events_def)
  show ?thesis using one body rest by blast
qed

text \<open>The leave of B reaches a node whose roster is A alone.\<close>

theorem leave_of_unknown_sender_witness:
  "corosync_dispatch_one host_accepting leave_B (example_driver [nodeA] 1 [] [leave_B] True)
     = Inr (True, leave_B, example_driver [nodeA] 1 [] [leave_B] True)
   \<and> corosync_dispatch_body host_accepting (example_driver [nodeA] 1 [] [leave_B] True)
     = Next_iteration (example_driver [nodeA] 1 [] [] True)"
proof -
  let ?s = "example_driver [nodeA] 1 [] [leave_B] True"
  have h1: "corosync_block_event_list ?s \<noteq> [] \<or> corosync_nonblock_event_list ?s \<noteq> []"
    by (simp add: example_driver_def)
  have h2: "first_entry ?s = leave_B" by (simp add: example_driver_def first_entry_def)
  have h3: "ev_type leave_B = COROSYNC_EVENT_TYPE_LEAVE" by code_simp
  have h4: "\<forall>n\<in>set (roster ?s). \<not> cpg_node_equal n (ev_sender leave_B)" by code_simp
  have d: "del_first_entry ?s = example_driver [nodeA] 1 [] [] True"
    by (simp add: example_driver_def del_first_entry_def)
  show ?thesis
    using leave_of_unknown_sender [OF h1 h2 h3 h4, of host_accepting] d by simp
qed

section \<open>Before the join has finished\<close>

text \<open>
  C1 (as amended).  While \<open>join_finished\<close> is false, the dispatcher processes no event
  other than a \<open>JOIN_REQUEST\<close> or a \<open>JOIN_RESPONSE\<close>: a pass over an event of another type
  either returns with the state as it is or deletes the event, and a call of the dispatcher
  that leaves \<open>join_finished\<close> false has made no upcall, sent nothing and left the roster
  alone.  A \<open>JOIN_REQUEST\<close> at the head stays queued while \<open>self_elect\<close> is false.  A
  \<open>LEAVE\<close> event at the head, or the \<open>JOIN_RESPONSE\<close> of another node, does not stay
  queued: it is removed without being processed.
\<close>

theorem pre_join_gating:
  assumes "\<not> join_finished s"
    and "corosync_block_event_list s \<noteq> [] \<or> corosync_nonblock_event_list s \<noteq> []"
  shows "(ev_type (first_entry s) \<noteq> COROSYNC_EVENT_TYPE_JOIN_REQUEST
          \<and> ev_type (first_entry s) \<noteq> COROSYNC_EVENT_TYPE_JOIN_RESPONSE \<longrightarrow>
            corosync_dispatch_body h s = Returned s
            \<or> corosync_dispatch_body h s = Next_iteration (del_first_entry s))
     \<and> (ev_type (first_entry s) = COROSYNC_EVENT_TYPE_JOIN_REQUEST \<and> \<not> self_elect s \<longrightarrow>
            corosync_dispatch_body h s = Returned s)
     \<and> (ev_type (first_entry s) = COROSYNC_EVENT_TYPE_LEAVE
          \<or> ev_type (first_entry s) = COROSYNC_EVENT_TYPE_JOIN_RESPONSE
             \<and> \<not> cpg_node_equal (ev_sender (first_entry s)) (this_node s) \<longrightarrow>
            corosync_dispatch_body h s = Next_iteration (del_first_entry s))
     \<and> (\<forall>s1. corosync_dispatch h incoming s = Inr s1 \<and> \<not> join_finished s1 \<longrightarrow>
            upcalls s1 = upcalls s \<and> sent s1 = sent s \<and> cpg_nodes s1 = cpg_nodes s
            \<and> nr_cpg_nodes s1 = nr_cpg_nodes s)"
proof -
  have A: "ev_type (first_entry s) \<noteq> COROSYNC_EVENT_TYPE_JOIN_REQUEST
          \<and> ev_type (first_entry s) \<noteq> COROSYNC_EVENT_TYPE_JOIN_RESPONSE \<longrightarrow>
            corosync_dispatch_body h s = Returned s
            \<or> corosync_dispatch_body h s = Next_iteration (del_first_entry s)"
    using assms(1)
    by (cases "ev_type (first_entry s)")
       (simp_all add: corosync_dispatch_body_def update_join_status_def)
  have B: "ev_type (first_entry s) = COROSYNC_EVENT_TYPE_JOIN_REQUEST \<and> \<not> self_elect s \<longrightarrow>
            corosync_dispatch_body h s = Returned s"
    using assms(1) by (simp add: corosync_dispatch_body_def update_join_status_def)
  have C: "ev_type (first_entry s) = COROSYNC_EVENT_TYPE_LEAVE
          \<or> ev_type (first_entry s) = COROSYNC_EVENT_TYPE_JOIN_RESPONSE
             \<and> \<not> cpg_node_equal (ev_sender (first_entry s)) (this_node s) \<longrightarrow>
            corosync_dispatch_body h s = Next_iteration (del_first_entry s)"
    using assms(1) by (auto simp: corosync_dispatch_body_def update_join_status_def)
  have D: "\<forall>s1. corosync_dispatch h incoming s = Inr s1 \<and> \<not> join_finished s1 \<longrightarrow>
            upcalls s1 = upcalls s \<and> sent s1 = sent s \<and> cpg_nodes s1 = cpg_nodes s
            \<and> nr_cpg_nodes s1 = nr_cpg_nodes s"
  proof (intro allI impI)
    fix s1 assume a: "corosync_dispatch h incoming s = Inr s1 \<and> \<not> join_finished s1"
    show "upcalls s1 = upcalls s \<and> sent s1 = sent s \<and> cpg_nodes s1 = cpg_nodes s
            \<and> nr_cpg_nodes s1 = nr_cpg_nodes s"
    proof (cases incoming)
      case True
      with a show ?thesis by (simp add: corosync_dispatch_def)
    next
      case False
      with a have "corosync_dispatch_loop h (s\<lparr>nr_majority := 0\<rparr>) = Inr s1"
        by (simp add: corosync_dispatch_def)
      from dispatch_loop_unfinished[OF this] a show ?thesis by simp
    qed
  qed
  show ?thesis using A B C D by blast
qed


text \<open>Node A, not yet joined, drops the leave of B.\<close>

theorem pre_join_gating_witness:
  "\<not> join_finished before_join_with_leave
   \<and> corosync_nonblock_event_list before_join_with_leave \<noteq> []
   \<and> corosync_dispatch_body host_accepting before_join_with_leave
       = Next_iteration (del_first_entry before_join_with_leave)"
proof -
  have h1: "\<not> join_finished before_join_with_leave" by code_simp
  have n: "corosync_nonblock_event_list before_join_with_leave \<noteq> []" by code_simp
  then have h2: "corosync_block_event_list before_join_with_leave \<noteq> []
      \<or> corosync_nonblock_event_list before_join_with_leave \<noteq> []" by blast
  have l: "ev_type (first_entry before_join_with_leave) = COROSYNC_EVENT_TYPE_LEAVE"
    by code_simp
  show ?thesis
    using pre_join_gating [OF h1 h2, of host_accepting False] h1 n l by blast
qed

text \<open>
  C1 as stated fails: node A, whose join has not finished, learns from a membership
  change that B has left; the next call of the dispatcher removes the \<open>LEAVE\<close> event from
  the head of the non-block list, and \<open>join_finished\<close> is still false.
\<close>

theorem leave_is_dropped_before_join:
  "run host_accepting [Confchg True example_stack [addr_of nodeA] [addr_of nodeB] []]
       (driver_init nodeA 4)
     = Inr before_join_with_leave
   \<and> \<not> join_finished before_join_with_leave
   \<and> first_entry before_join_with_leave = left_B
   \<and> ev_type left_B = COROSYNC_EVENT_TYPE_LEAVE
   \<and> corosync_dispatch host_accepting False before_join_with_leave
     = Inr (before_join_with_leave\<lparr>corosync_nonblock_event_list := []\<rparr>)
   \<and> \<not> join_finished (before_join_with_leave\<lparr>corosync_nonblock_event_list := []\<rparr>)"
  by code_simp

section \<open>An unblock without a block\<close>

text \<open>
  C2 (as amended).  In a state where no \<open>BLOCK\<close> event of sender X is queued, delivering
  an \<open>UNBLOCK\<close> multicast of X removes no event and leaves the block list, the roster and
  the flags as they are, but the \<open>UNBLOCK\<close> case falls through to the code of \<open>NOTIFY\<close>: a
  \<open>NOTIFY\<close> event with X and the payload of the \<open>UNBLOCK\<close> is appended to the non-block
  list and the dispatcher is called, exactly as for a \<open>NOTIFY\<close> multicast with that sender
  and payload.
\<close>

theorem unblock_without_block:
  assumes "cm_type cmsg = COROSYNC_MSG_TYPE_UNBLOCK"
    and "find_block_event s COROSYNC_EVENT_TYPE_BLOCK (cm_sender cmsg) = None"
  shows "cdrv_cpg_deliver_intake cmsg s =
       Inr (s\<lparr>corosync_nonblock_event_list := corosync_nonblock_event_list s @
               [(xzalloc_event (SD_MAX_NODES s))
                  \<lparr>ev_type := COROSYNC_EVENT_TYPE_NOTIFY, ev_sender := cm_sender cmsg,
                   ev_msg_len := length (cm_msg cmsg),
                   ev_msg := (if cm_msg cmsg = [] then None else Some (cm_msg cmsg))\<rparr>]\<rparr>)
     \<and> cdrv_cpg_deliver h incoming cmsg s =
       cdrv_cpg_deliver h incoming (cmsg\<lparr>cm_type := COROSYNC_MSG_TYPE_NOTIFY\<rparr>) s"
proof -
  have u: "update_event COROSYNC_EVENT_TYPE_BLOCK (cm_sender cmsg) (cm_msg cmsg)
             (cm_msg_len cmsg) s = None"
    using assms(2) by (simp add: update_event_def find_event_def)
  have intake: "cdrv_cpg_deliver_intake cmsg s = Inr (deliver_new_event cmsg s)"
    using assms(1) u by (simp add: cdrv_cpg_deliver_intake_def)
  have same: "deliver_new_event (cmsg\<lparr>cm_type := COROSYNC_MSG_TYPE_NOTIFY\<rparr>) s
      = deliver_new_event cmsg s"
    using assms(1) by (simp add: deliver_new_event_def cm_msg_len_def)
  have notify: "cdrv_cpg_deliver_intake (cmsg\<lparr>cm_type := COROSYNC_MSG_TYPE_NOTIFY\<rparr>) s
      = Inr (deliver_new_event cmsg s)"
    using same by (simp add: cdrv_cpg_deliver_intake_def)
  have ev: "deliver_new_event cmsg s =
       s\<lparr>corosync_nonblock_event_list := corosync_nonblock_event_list s @
               [(xzalloc_event (SD_MAX_NODES s))
                  \<lparr>ev_type := COROSYNC_EVENT_TYPE_NOTIFY, ev_sender := cm_sender cmsg,
                   ev_msg_len := length (cm_msg cmsg),
                   ev_msg := (if cm_msg cmsg = [] then None else Some (cm_msg cmsg))\<rparr>]\<rparr>"
    using assms(1) by (simp add: deliver_new_event_def queue_event_def cm_msg_len_def)
  show ?thesis
    using intake notify ev by (simp add: cdrv_cpg_deliver_def)
qed

text \<open>The unblock of B at a node that holds no event at all.\<close>

theorem unblock_without_block_witness:
  "cdrv_cpg_deliver_intake unblock_B (example_driver [nodeA] 1 [] [] True) =
     Inr (example_driver [nodeA] 1 [] [notify_of_unblock_B] True)
   \<and> cdrv_cpg_deliver host_accepting False unblock_B (example_driver [nodeA] 1 [] [] True) =
     cdrv_cpg_deliver host_accepting False
       (unblock_B\<lparr>cm_type := COROSYNC_MSG_TYPE_NOTIFY\<rparr>) (example_driver [nodeA] 1 [] [] True)"
proof -
  let ?s = "example_driver [nodeA] 1 [] [] True"
  have h1: "cm_type unblock_B = COROSYNC_MSG_TYPE_UNBLOCK" by code_simp
  have h2: "find_block_event ?s COROSYNC_EVENT_TYPE_BLOCK (cm_sender unblock_B) = None"
    by code_simp
  have e: "?s\<lparr>corosync_nonblock_event_list := corosync_nonblock_event_list ?s @
               [(xzalloc_event (SD_MAX_NODES ?s))
                  \<lparr>ev_type := COROSYNC_EVENT_TYPE_NOTIFY, ev_sender := cm_sender unblock_B,
                   ev_msg_len := length (cm_msg unblock_B),
                   ev_msg := (if cm_msg unblock_B = [] then None
                              else Some (cm_msg unblock_B))\<rparr>]\<rparr>
      = example_driver [nodeA] 1 [] [notify_of_unblock_B] True"
    by code_simp
  show ?thesis
    using unblock_without_block [OF h1 h2, of host_accepting False] unfolding e by blast
qed

text \<open>
  C2 as stated fails: the unblock of B, delivered to a node that holds no event, makes the
  dispatcher call \<open>sd_notify_handler\<close>, or leaves a \<open>NOTIFY\<close> event in the non-block list
  when the dispatcher puts its work off.
\<close>

theorem unblock_is_not_a_no_op:
  "find_block_event (example_driver [nodeA] 1 [] [] True) COROSYNC_EVENT_TYPE_BLOCK nodeB = None
   \<and> cdrv_cpg_deliver host_accepting False unblock_B (example_driver [nodeA] 1 [] [] True) =
       Inr ((example_driver [nodeA] 1 [] [] True)\<lparr>upcalls := [Sd_notify_handler 22 (Some [7]) 1]\<rparr>)
   \<and> cdrv_cpg_deliver host_accepting True unblock_B (example_driver [nodeA] 1 [] [] True) =
       Inr (example_driver [nodeA] 1 [] [notify_of_unblock_B] True)"
  by code_simp

section \<open>One check of a join request\<close>

text \<open>
  C7.  \<open>sd_check_join_cb\<close> is called at most once for a \<open>JOIN_REQUEST\<close> event, over any
  sequence of calls of the dispatcher: the call that makes the upcall sets \<open>callbacked\<close>,
  and an event with \<open>callbacked\<close> set is returned untouched, without the upcall.  So the
  number of these upcalls never exceeds the number of join requests that were queued
  without \<open>callbacked\<close>: over calls of the dispatcher alone, and over whole runs of the two
  intake callbacks, where each node reported as joined adds one such event.
\<close>

theorem check_join_at_most_once:
  "(ev_type e = COROSYNC_EVENT_TYPE_JOIN_REQUEST \<and> ev_callbacked e \<longrightarrow>
      corosync_dispatch_one h e s = Inr (False, e, s))
   \<and> (ev_type e = COROSYNC_EVENT_TYPE_JOIN_REQUEST
       \<and> corosync_dispatch_one h e s = Inr (b, e1, s1) \<longrightarrow>
        e1 = e \<and> s1 = s
        \<or> \<not> ev_callbacked e \<and> ev_callbacked e1
          \<and> upcalls s1 = upcalls s @ [Sd_check_join_cb (ent (ev_sender e)) (ev_msg e)])
   \<and> (dispatches h polls s = Inr t \<longrightarrow>
        nr_check_join t + nr_fresh_join_requests t \<le> nr_check_join s + nr_fresh_join_requests s)
   \<and> (dispatches h polls s = Inl (why, t) \<longrightarrow>
        nr_check_join t \<le> nr_check_join s + nr_fresh_join_requests s)
   \<and> (run h calls s = Inr t \<longrightarrow>
        nr_check_join t + nr_fresh_join_requests t
          \<le> nr_check_join s + nr_fresh_join_requests s + sum_list (map nr_joined calls))
   \<and> (run h calls s = Inl (why, t) \<longrightarrow>
        nr_check_join t
          \<le> nr_check_join s + nr_fresh_join_requests s + sum_list (map nr_joined calls))"
proof -
  have A: "ev_type e = COROSYNC_EVENT_TYPE_JOIN_REQUEST \<and> ev_callbacked e \<longrightarrow>
      corosync_dispatch_one h e s = Inr (False, e, s)"
    by (simp add: corosync_dispatch_one_def)
  have B: "ev_type e = COROSYNC_EVENT_TYPE_JOIN_REQUEST
       \<and> corosync_dispatch_one h e s = Inr (b, e1, s1) \<longrightarrow>
        e1 = e \<and> s1 = s
        \<or> \<not> ev_callbacked e \<and> ev_callbacked e1
          \<and> upcalls s1 = upcalls s @ [Sd_check_join_cb (ent (ev_sender e)) (ev_msg e)]"
    by (auto simp: corosync_dispatch_one_def Let_def send_message_def split: if_splits)
  show ?thesis
    using A B dispatches_check_join[of h polls s t why] run_check_join[of h calls s t why]
    by blast
qed

text \<open>Three calls of the dispatcher at the master A, which holds the request of B.\<close>

theorem check_join_at_most_once_witness:
  "\<exists>t. dispatches host_accepting [False, False, False]
          (example_driver [nodeA] 1 [] [request_B] True) = Inr t
     \<and> nr_check_join t = 1
     \<and> nr_check_join t + nr_fresh_join_requests t
         \<le> nr_check_join (example_driver [nodeA] 1 [] [request_B] True)
           + nr_fresh_join_requests (example_driver [nodeA] 1 [] [request_B] True)"
proof -
  let ?s = "example_driver [nodeA] 1 [] [request_B] True"
  have "(case dispatches host_accepting [False, False, False] ?s of
           Inl x \<Rightarrow> False | Inr t \<Rightarrow> nr_check_join t = 1)"
    by code_simp
  then obtain t where t: "dispatches host_accepting [False, False, False] ?s = Inr t"
    "nr_check_join t = 1"
    by (cases "dispatches host_accepting [False, False, False] ?s") auto
  from check_join_at_most_once [of request_B host_accepting ?s False request_B ?s
      "[False, False, False]" t Out_of_bounds "[]"] t(1)
  have "nr_check_join t + nr_fresh_join_requests t
      \<le> nr_check_join ?s + nr_fresh_join_requests ?s" by blast
  with t show ?thesis by blast
qed

section \<open>No duplicates in the roster\<close>

text \<open>
  C8 (as amended).  The driver never compares a node it appends, or a snapshot it adopts,
  with the roster.  The roster stays free of duplicate node ids over every run of intake
  calls in which each \<open>JOIN_RESPONSE\<close> event that comes to be processed brings a new
  node: its sender is not yet in the roster, and a snapshot that is adopted has no
  duplicates and does not list the sender.
\<close>

theorem roster_stays_distinct:
  assumes "roster_distinct s" and "nr_cpg_nodes s \<le> SD_MAX_NODES s" and "run_new h calls s"
  shows "run h calls s = Inr t \<or> run h calls s = Inl (why, t) \<longrightarrow>
         roster_distinct t \<and> nr_cpg_nodes t \<le> SD_MAX_NODES t"
  using run_distinct[of s h calls t why] assms by (simp add: SD_MAX_NODES_def)

text \<open>B joins the cluster of A: the roster becomes A, B.\<close>

theorem roster_stays_distinct_witness:
  "roster_distinct (driver_init nodeB 4)
   \<and> run_new host_accepting (take 3 stale_run) (driver_init nodeB 4)
   \<and> \<not> isl (run host_accepting (take 3 stale_run) (driver_init nodeB 4))
   \<and> roster (outcome_state (run host_accepting (take 3 stale_run) (driver_init nodeB 4)))
       = [nodeA, nodeB]
   \<and> roster_distinct
        (outcome_state (run host_accepting (take 3 stale_run) (driver_init nodeB 4)))"
proof -
  let ?s = "driver_init nodeB 4"
  let ?r = "run host_accepting (take 3 stale_run) ?s"
  have h1: "roster_distinct ?s" by code_simp
  have h2: "nr_cpg_nodes ?s \<le> SD_MAX_NODES ?s" by code_simp
  have h3: "run_new host_accepting (take 3 stale_run) ?s" by code_simp
  have ok: "\<not> isl ?r" by code_simp
  then have r: "?r = Inr (outcome_state ?r)"
    by (cases ?r) (simp_all add: outcome_state_def)
  have ros: "roster (outcome_state ?r) = [nodeA, nodeB]" by code_simp
  have "roster_distinct (outcome_state ?r)"
    using roster_stays_distinct [OF h1 h2 h3, of "outcome_state ?r" Out_of_bounds] r by blast
  with h1 h3 ok ros show ?thesis by blast
qed

text \<open>
  C8 as stated fails: in the run \<open>duplicate_run\<close> the response to the join request of B
  carries a snapshot that lists B; B adopts the snapshot and appends itself.
\<close>

theorem roster_gets_duplicate:
  "\<not> isl (run host_accepting duplicate_run (driver_init nodeB 4))
   \<and> roster (outcome_state (run host_accepting duplicate_run (driver_init nodeB 4)))
       = [nodeA, nodeB, nodeB]
   \<and> \<not> roster_distinct (outcome_state (run host_accepting duplicate_run (driver_init nodeB 4)))"
  by code_simp

end
